theory Spec2Isabelle
  imports Complex_Main "HOL-Library.AList"
begin

section \<open>Cell values\<close>

text \<open>
  A cell of a pandas table is a float64. The model keeps the three kinds of value that
  the pipeline distinguishes: a finite number, the missing marker \<open>NaN\<close> (what \<open>isna\<close>,
  \<open>ffill\<close> and \<open>dropna\<close> look for) and the two infinities that a division by zero
  produces. Finite numbers are exact rationals: rounding, overflow and the sign of zero
  are not modelled.
\<close>

datatype fval = Num rat | NaN | Inf bool

text \<open>\<open>Inf True\<close> is \<open>+inf\<close>, \<open>Inf False\<close> is \<open>-inf\<close>.\<close>

fun fsub :: "fval \<Rightarrow> fval \<Rightarrow> fval" where
  "fsub NaN _ = NaN"
| "fsub _ NaN = NaN"
| "fsub (Num a) (Num b) = Num (a - b)"
| "fsub (Num a) (Inf t) = Inf (\<not> t)"
| "fsub (Inf s) (Num b) = Inf s"
| "fsub (Inf s) (Inf t) = (if s = t then NaN else Inf s)"

fun fmul :: "fval \<Rightarrow> fval \<Rightarrow> fval" where
  "fmul NaN _ = NaN"
| "fmul _ NaN = NaN"
| "fmul (Num a) (Num b) = Num (a * b)"
| "fmul (Num a) (Inf t) = (if a = 0 then NaN else Inf (t = (0 < a)))"
| "fmul (Inf s) (Num b) = (if b = 0 then NaN else Inf (s = (0 < b)))"
| "fmul (Inf s) (Inf t) = Inf (s = t)"

fun fdiv :: "fval \<Rightarrow> fval \<Rightarrow> fval" where
  "fdiv NaN _ = NaN"
| "fdiv _ NaN = NaN"
| "fdiv (Num a) (Num b) =
     (if b \<noteq> 0 then Num (a / b) else if a = 0 then NaN else Inf (0 < a))"
| "fdiv (Num a) (Inf t) = Num 0"
| "fdiv (Inf s) (Num b) = Inf (s = (0 \<le> b))"
| "fdiv (Inf s) (Inf t) = NaN"

definition isna :: "fval \<Rightarrow> bool" where
  "isna v = (v = NaN)"

section \<open>Tables\<close>

text \<open>
  A \<open>DataFrame\<close> is column-major: a date index and an ordered list of named columns.
  Dates are day numbers. A \<open>Series\<close> that comes from the provider carries its own
  dates.
\<close>

type_synonym date = nat

type_synonym column = "fval list"

type_synonym series = "(date \<times> fval) list"

record frame =
  index :: "date list"
  cols :: "(string \<times> column) list"

definition empty_frame :: frame where
  "empty_frame = \<lparr>index = [], cols = []\<rparr>"

definition columns :: "frame \<Rightarrow> string list" where
  "columns df = map fst (cols df)"

text \<open>\<open>name in df.columns\<close>\<close>

definition has_col :: "frame \<Rightarrow> string \<Rightarrow> bool" where
  "has_col df c = (c \<in> set (columns df))"

text \<open>\<open>df[name]\<close>, \<open>None\<close> where pandas raises \<open>KeyError\<close>.\<close>

definition get_col :: "frame \<Rightarrow> string \<Rightarrow> column option" where
  "get_col df c = map_of (cols df) c"

text \<open>
  \<open>df[name] = values\<close> for values on the table's own index: an existing column is
  replaced where it stands, a new one is appended.
\<close>

definition set_col :: "frame \<Rightarrow> string \<Rightarrow> column \<Rightarrow> frame" where
  "set_col df c vs = df\<lparr>cols := AList.update c vs (cols df)\<rparr>"

text \<open>\<open>df[name] = np.nan\<close>: the scalar is broadcast over the index.\<close>

definition set_scalar :: "frame \<Rightarrow> string \<Rightarrow> fval \<Rightarrow> frame" where
  "set_scalar df c v = set_col df c (replicate (length (index df)) v)"

text \<open>\<open>df.empty\<close>: some axis has length zero.\<close>

definition is_empty :: "frame \<Rightarrow> bool" where
  "is_empty df = (index df = [] \<or> cols df = [])"

text \<open>Arithmetic of a column with a scalar and of two columns of one table.\<close>

definition col_div :: "column \<Rightarrow> rat \<Rightarrow> column" where
  "col_div xs k = map (\<lambda>x. fdiv x (Num k)) xs"

definition col_mul :: "column \<Rightarrow> rat \<Rightarrow> column" where
  "col_mul xs k = map (\<lambda>x. fmul x (Num k)) xs"

definition col_sub :: "column \<Rightarrow> column \<Rightarrow> column" where
  "col_sub xs ys = map2 fsub xs ys"

section \<open>Column names\<close>

definition US_10Y :: string where "US_10Y = ''US 10Y Yield''"

definition US_2Y :: string where "US_2Y = ''US 2Y Yield''"

definition FED_ASSETS :: string where "FED_ASSETS = ''Fed Total Assets''"

definition TGA :: string where "TGA = ''TGA Account''"

definition RRP :: string where "RRP = ''Reverse Repo''"

definition NET_LIQ :: string where "NET_LIQ = ''Net Liquidity''"

definition CURVE :: string where "CURVE = ''Curve 10Y-2Y''"

definition SOFR :: string where "SOFR = ''SOFR Rate''"

definition IORB :: string where "IORB = ''IORB Rate''"

definition LIQ_STRESS :: string where "LIQ_STRESS = ''Liquidity Stress''"

definition SUPERCORE_IDX :: string where "SUPERCORE_IDX = ''Supercore CPI Index''"

definition SUPERCORE_YOY :: string where "SUPERCORE_YOY = ''Supercore YoY''"

definition BANK_RES :: string where "BANK_RES = ''Bank Reserves''"

definition BANK_RES_T :: string where "BANK_RES_T = ''Bank Reserves Trillions''"

section \<open>rate\_agent\_v2.py: process\_rates\_data\<close>

text \<open>
  The curve spread, shared by the three rate agents:
  \<^verbatim>\<open>if 'US 10Y Yield' in df.columns and 'US 2Y Yield' in df.columns:
      df['Curve 10Y-2Y'] = df['US 10Y Yield'] - df['US 2Y Yield']\<close>
\<close>

definition add_curve :: "frame \<Rightarrow> frame" where
  "add_curve df =
     (case (get_col df US_10Y, get_col df US_2Y) of
        (Some a, Some b) \<Rightarrow> set_col df CURVE (col_sub a b)
      | _ \<Rightarrow> df)"

text \<open>
  Net liquidity in trillions as v2 and v3 compute it: Fed assets and the TGA are in
  millions, the reverse repo in billions; without the three inputs the column is set
  to \<open>np.nan\<close>.
\<close>

definition add_net_liquidity :: "frame \<Rightarrow> frame" where
  "add_net_liquidity df =
     (case (get_col df FED_ASSETS, get_col df TGA, get_col df RRP) of
        (Some f, Some t, Some r) \<Rightarrow>
          (let fed = col_div f 1000000;
               tga = col_div t 1000000;
               rrp = col_div r 1000
           in set_col df NET_LIQ (col_sub (col_sub fed tga) rrp))
      | _ \<Rightarrow> set_scalar df NET_LIQ NaN)"

definition process_rates_data_v2 :: "frame \<Rightarrow> frame" where
  "process_rates_data_v2 df = add_curve (add_net_liquidity df)"

section \<open>Alignment: forward fill and row selection\<close>

text \<open>
  \<open>DataFrame.ffill()\<close>: every column on its own, a \<open>NaN\<close> takes the last value seen
  that was not \<open>NaN\<close>; before the first such value it stays \<open>NaN\<close>.
\<close>

fun ffill_from :: "fval \<Rightarrow> column \<Rightarrow> column" where
  "ffill_from prev [] = []"
| "ffill_from prev (x # xs) =
     (if isna x then prev # ffill_from prev xs else x # ffill_from x xs)"

definition ffill_col :: "column \<Rightarrow> column" where
  "ffill_col xs = ffill_from NaN xs"

definition ffill :: "frame \<Rightarrow> frame" where
  "ffill df = df\<lparr>cols := map (\<lambda>(c, xs). (c, ffill_col xs)) (cols df)\<rparr>"

text \<open>Selecting rows by position, as \<open>dropna\<close> does with the positions it keeps.\<close>

definition take_rows :: "frame \<Rightarrow> nat list \<Rightarrow> frame" where
  "take_rows df ks =
     \<lparr>index = map (\<lambda>k. index df ! k) ks,
      cols = map (\<lambda>(c, xs). (c, map (\<lambda>k. xs ! k) ks)) (cols df)\<rparr>"

datatype error = KeyError string | IndexError | Stop string

text \<open>
  \<open>df.dropna(subset=[c])\<close>: \<open>KeyError\<close> when the table has no column \<open>c\<close>, else the
  rows whose cell in \<open>c\<close> is not \<open>NaN\<close>. With one column in the subset, \<open>how='all'\<close>
  selects the same rows.
\<close>

definition dropna_subset :: "frame \<Rightarrow> string \<Rightarrow> error + frame" where
  "dropna_subset df c =
     (case get_col df c of
        None \<Rightarrow> Inl (KeyError c)
      | Some xs \<Rightarrow>
          Inr (take_rows df (filter (\<lambda>k. \<not> isna (xs ! k)) [0..<length (index df)])))"

text \<open>\<open>df.dropna()\<close>: the rows with no \<open>NaN\<close> in any column.\<close>

definition dropna :: "frame \<Rightarrow> frame" where
  "dropna df =
     take_rows df
       (filter (\<lambda>k. list_all (\<lambda>(c, xs). \<not> isna (xs ! k)) (cols df))
          [0..<length (index df)])"

section \<open>Percentage change\<close>

text \<open>
  \<open>Series.pct_change(n)\<close> is \<open>data / data.shift(n) - 1\<close>. Releases of pandas before
  3.0 forward-fill the series first (\<open>fill_method='pad'\<close>), later ones do not; the
  repository pins no release, so the choice is the parameter \<open>pad\<close>.
\<close>

definition shift :: "nat \<Rightarrow> column \<Rightarrow> column" where
  "shift n xs = replicate (min n (length xs)) NaN @ take (length xs - n) xs"

definition pct_change :: "bool \<Rightarrow> nat \<Rightarrow> column \<Rightarrow> column" where
  "pct_change pad n xs =
     (let data = (if pad then ffill_col xs else xs)
      in map2 (\<lambda>a b. fsub (fdiv a b) (Num 1)) data (shift n data))"

text \<open>\<open>DataFrame.pct_change(n)\<close> works column by column.\<close>

definition pct_change_frame :: "bool \<Rightarrow> nat \<Rightarrow> frame \<Rightarrow> frame" where
  "pct_change_frame pad n df =
     df\<lparr>cols := map (\<lambda>(c, xs). (c, pct_change pad n xs)) (cols df)\<rparr>"

definition mul_frame :: "frame \<Rightarrow> rat \<Rightarrow> frame" where
  "mul_frame df k = df\<lparr>cols := map (\<lambda>(c, xs). (c, col_mul xs k)) (cols df)\<rparr>"

section \<open>rate\_agent\_v3.py: process\_rates\_data\<close>

definition add_liquidity_stress :: "frame \<Rightarrow> frame" where
  "add_liquidity_stress df =
     (case (get_col df SOFR, get_col df IORB) of
        (Some a, Some b) \<Rightarrow> set_col df LIQ_STRESS (col_sub a b)
      | _ \<Rightarrow> df)"

definition add_supercore_yoy :: "bool \<Rightarrow> frame \<Rightarrow> frame" where
  "add_supercore_yoy pad df =
     (case get_col df SUPERCORE_IDX of
        Some xs \<Rightarrow> set_col df SUPERCORE_YOY (col_mul (pct_change pad 252 xs) 100)
      | None \<Rightarrow> df)"

definition add_bank_reserves :: "frame \<Rightarrow> frame" where
  "add_bank_reserves df =
     (case get_col df BANK_RES of
        Some xs \<Rightarrow> set_col df BANK_RES_T (col_div xs 1000)
      | None \<Rightarrow> df)"

definition process_rates_data_v3 :: "bool \<Rightarrow> frame \<Rightarrow> frame" where
  "process_rates_data_v3 pad df =
     add_curve (add_bank_reserves (add_supercore_yoy pad
       (add_liquidity_stress (add_net_liquidity df))))"

section \<open>rate\_agent.py: process\_rates\_data\<close>

text \<open>
  The first rate agent fills and drops inside \<open>process_rates_data\<close>, divides the TGA
  by 1000 and has no \<open>else\<close> branch for the net liquidity.
\<close>

definition add_net_liquidity_v1 :: "frame \<Rightarrow> frame" where
  "add_net_liquidity_v1 df =
     (case (get_col df FED_ASSETS, get_col df TGA, get_col df RRP) of
        (Some f, Some t, Some r) \<Rightarrow>
          (let fed_t = col_div f 1000000;
               tga_t = col_div t 1000;
               rrp_t = col_div r 1000
           in set_col df NET_LIQ (col_sub (col_sub fed_t tga_t) rrp_t))
      | _ \<Rightarrow> df)"

definition process_rates_data_v1 :: "frame \<Rightarrow> error + frame" where
  "process_rates_data_v1 df =
     (case dropna_subset (ffill df) US_10Y of
        Inl e \<Rightarrow> Inl e
      | Inr df' \<Rightarrow> Inr (add_curve (add_net_liquidity_v1 df')))"

section \<open>Fetching\<close>

text \<open>
  The provider is a function from a series code to its observations; \<open>None\<close> stands
  for any exception of \<open>fred.get_series\<close>. The observations of one series have
  increasing dates.

  \<open>df[name] = series\<close> for a series with its own index: a table without rows takes the
  index of the first series that has rows (its older columns become \<open>NaN\<close>); a series on
  the table's index is stored as it is, any other one is aligned to the table's dates.
\<close>

definition reindex :: "series \<Rightarrow> date list \<Rightarrow> column" where
  "reindex s idx = map (\<lambda>d. case map_of s d of Some v \<Rightarrow> v | None \<Rightarrow> NaN) idx"

definition assign_series :: "frame \<Rightarrow> string \<Rightarrow> series \<Rightarrow> frame" where
  "assign_series df c s =
     (let df1 = (if index df = [] \<and> s \<noteq> []
                 then \<lparr>index = map fst s,
                       cols = map (\<lambda>(n, xs). (n, replicate (length s) NaN)) (cols df)\<rparr>
                 else df)
      in set_col df1 c
           (if map fst s = index df1 then map snd s else reindex s (index df1)))"

text \<open>\<open>pd.concat(data_frames, axis=1)\<close>: the outer join of named series on their dates.\<close>

definition concat_axis1 :: "(string \<times> series) list \<Rightarrow> frame" where
  "concat_axis1 fs =
     (let idx = sort (remdups (concat (map (\<lambda>(n, s). map fst s) fs)))
      in \<lparr>index = idx, cols = map (\<lambda>(n, s). (n, reindex s idx)) fs\<rparr>)"

subsection \<open>cpi\_agent.py and cpi\_agent\_v2.1.py: get\_macro\_data\<close>

definition CPI :: string where "CPI = ''CPI (Headline)''"

definition CPI_CORE :: string where "CPI_CORE = ''CPI (Core)''"

definition PPI :: string where "PPI = ''PPI (Final Demand)''"

definition PCE :: string where "PCE = ''PCE (Headline)''"

definition STICKY :: string where "STICKY = ''Sticky CPI''"

definition US_10Y_YIELD :: string where "US_10Y_YIELD = ''US_10Y_Yield''"

definition SUPERCORE :: string where "SUPERCORE = ''Supercore (Svcs ex Shelter)''"

definition USED_CARS :: string where "USED_CARS = ''Used Cars''"

definition SHELTER :: string where "SHELTER = ''CPI Shelter''"

definition CHINA :: string where "CHINA = ''China Import Prices''"

definition BREAKEVEN :: string where "BREAKEVEN = ''5Y Breakeven''"

definition REAL_10Y :: string where "REAL_10Y = ''10Y Real Yield''"

definition PROFIT_SPREAD :: string where "PROFIT_SPREAD = ''Profit Spread''"

definition tickers_cpi :: "(string \<times> string) list" where
  "tickers_cpi =
     [(''CPIAUCSL'', CPI), (''CPILFESL'', CPI_CORE), (''PPIFIS'', PPI), (''PCEPI'', PCE),
      (''STICKCPIM159SFRBATL'', STICKY)]"

definition tickers_cpi_v21 :: "(string \<times> string) list" where
  "tickers_cpi_v21 =
     [(''CPIAUCSL'', CPI), (''CPILFESL'', CPI_CORE), (''PPIFIS'', PPI), (''PCEPI'', PCE),
      (''CUSR0000SAD'', SUPERCORE), (''CUSR0000SETA02'', USED_CARS),
      (''CUSR0000SAH1'', SHELTER), (''CHNTOT'', CHINA),
      (''STICKCPIM159SFRBATL'', STICKY), (''T5YIE'', BREAKEVEN), (''DFII10'', REAL_10Y)]"

text \<open>
  The loop of \<open>get_macro_data\<close>: a fetched series becomes a column, a failure is
  shown with \<open>st.error\<close> (collected here by name) and the loop goes on.
\<close>

fun fetch_columns ::
  "(string \<Rightarrow> series option) \<Rightarrow> (string \<times> string) list \<Rightarrow> frame \<times> string list
     \<Rightarrow> frame \<times> string list" where
  "fetch_columns fetch [] st = st"
| "fetch_columns fetch ((code, name) # ts) (df, errs) =
     (case fetch code of
        Some s \<Rightarrow> fetch_columns fetch ts (assign_series df name s, errs)
      | None \<Rightarrow> fetch_columns fetch ts (df, errs @ [name]))"

definition get_macro_data :: "(string \<Rightarrow> series option) \<Rightarrow> frame \<times> string list" where
  "get_macro_data fetch = fetch_columns fetch tickers_cpi (empty_frame, [])"

definition get_macro_data_v21 :: "(string \<Rightarrow> series option) \<Rightarrow> frame \<times> string list" where
  "get_macro_data_v21 fetch = fetch_columns fetch tickers_cpi_v21 (empty_frame, [])"

subsection \<open>rate\_agent\_v2.py and rate\_agent\_v3.py: get\_rates\_data\<close>

definition tickers_rate_v2 :: "(string \<times> string) list" where
  "tickers_rate_v2 =
     [(''DGS10'', US_10Y), (''DGS2'', US_2Y), (''FEDFUNDS'', ''Fed Funds Rate''),
      (''DFII10'', REAL_10Y), (''T10Y3M'', ''10Y-3M Spread''),
      (''WALCL'', FED_ASSETS), (''WTREGEN'', TGA), (''RRPONTSYD'', RRP),
      (''BAMLH0A0HYM2'', ''High Yield Spread''), (''NFCI'', ''Financial Conditions''),
      (''SP500'', ''S&P 500'')]"

definition tickers_rate_v3 :: "(string \<times> string) list" where
  "tickers_rate_v3 =
     [(''DGS10'', US_10Y), (''DGS2'', US_2Y), (''FEDFUNDS'', ''Fed Funds Rate''),
      (''DFII10'', REAL_10Y), (''T10Y3M'', ''10Y-3M Spread''), (''DGS30'', ''US 30Y Yield''),
      (''WALCL'', FED_ASSETS), (''WTREGEN'', TGA), (''RRPONTSYD'', RRP),
      (''SOFR'', SOFR), (''IORB'', IORB), (''TOTRESNS'', BANK_RES),
      (''CUSR0000SAD'', SUPERCORE_IDX), (''T5YIE'', BREAKEVEN),
      (''BAMLH0A0HYM2'', ''High Yield Spread''), (''NFCI'', ''Financial Conditions''),
      (''SP500'', ''S&P 500'')]"

text \<open>
  The loop of \<open>get_rates_data\<close>: a fetched series is named and appended to
  \<open>data_frames\<close>; v2 prints a warning for a failure (the second component), v3 passes.
\<close>

fun fetch_series ::
  "(string \<Rightarrow> series option) \<Rightarrow> (string \<times> string) list
     \<Rightarrow> (string \<times> series) list \<times> string list" where
  "fetch_series fetch [] = ([], [])"
| "fetch_series fetch ((code, name) # ts) =
     (let (data_frames, warnings) = fetch_series fetch ts
      in case fetch code of
           Some s \<Rightarrow> ((name, s) # data_frames, warnings)
         | None \<Rightarrow> (data_frames, name # warnings))"

definition align_rates :: "(string \<times> series) list \<Rightarrow> error + frame" where
  "align_rates data_frames =
     (if data_frames = [] then Inr empty_frame
      else dropna_subset (ffill (concat_axis1 data_frames)) US_10Y)"

definition get_rates_data_v2 ::
  "(string \<Rightarrow> series option) \<Rightarrow> (error + frame) \<times> string list" where
  "get_rates_data_v2 fetch =
     (let (data_frames, warnings) = fetch_series fetch tickers_rate_v2
      in (align_rates data_frames, warnings))"

definition get_rates_data_v3 :: "(string \<Rightarrow> series option) \<Rightarrow> error + frame" where
  "get_rates_data_v3 fetch = align_rates (fst (fetch_series fetch tickers_rate_v3))"

section \<open>cpi\_agent.py: process\_data and calculate\_spread\<close>

text \<open>
  Year-over-year and month-over-month changes of every column, in percent; the sticky
  CPI is already a rate and goes back to its raw value, its month-over-month column
  is set to \<open>np.nan\<close>. The branch for \<open>'US_10Y_Yield'\<close> restores the raw value in the
  year-over-year table only; no ticker of this file has that name.
\<close>

definition process_data :: "bool \<Rightarrow> frame \<Rightarrow> frame \<times> frame \<times> frame" where
  "process_data pad df =
     (let df_yoy = mul_frame (pct_change_frame pad 12 df) 100;
          df_mom = mul_frame (pct_change_frame pad 1 df) 100;
          (df_yoy, df_mom) =
            (case get_col df STICKY of
               Some xs \<Rightarrow> (set_col df_yoy STICKY xs, set_scalar df_mom STICKY NaN)
             | None \<Rightarrow> (df_yoy, df_mom));
          df_yoy =
            (case get_col df US_10Y_YIELD of
               Some xs \<Rightarrow> set_col df_yoy US_10Y_YIELD xs
             | None \<Rightarrow> df_yoy)
      in (df, df_yoy, df_mom))"

definition calculate_spread :: "frame \<Rightarrow> error + column" where
  "calculate_spread df_yoy =
     (case get_col df_yoy CPI of
        None \<Rightarrow> Inl (KeyError CPI)
      | Some a \<Rightarrow>
          (case get_col df_yoy PPI of
             None \<Rightarrow> Inl (KeyError PPI)
           | Some b \<Rightarrow> Inr (col_sub a b)))"

section \<open>cpi\_agent\_v2.1.py: process\_data\<close>

definition index_cols :: "string list" where
  "index_cols = [CPI, CPI_CORE, PPI, PCE, SUPERCORE, USED_CARS, SHELTER, CHINA]"

definition rate_cols :: "string list" where
  "rate_cols = [STICKY, BREAKEVEN, REAL_10Y]"

text \<open>\<open>df[col]\<close> as a series: the column with the table's dates.\<close>

definition as_series :: "frame \<Rightarrow> column \<Rightarrow> series" where
  "as_series df xs = zip (index df) xs"

text \<open>
  The two loops that fill \<open>df_yoy\<close>, which starts as \<open>pd.DataFrame()\<close>: index columns
  become their change over 12 rows in percent, rate columns are copied.
\<close>

fun yoy_index_cols :: "bool \<Rightarrow> frame \<Rightarrow> string list \<Rightarrow> frame \<Rightarrow> frame" where
  "yoy_index_cols pad df [] df_yoy = df_yoy"
| "yoy_index_cols pad df (col # rest) df_yoy =
     yoy_index_cols pad df rest
       (case get_col df col of
          Some xs \<Rightarrow>
            assign_series df_yoy col (as_series df (col_mul (pct_change pad 12 xs) 100))
        | None \<Rightarrow> df_yoy)"

fun copy_rate_cols :: "frame \<Rightarrow> string list \<Rightarrow> frame \<Rightarrow> frame" where
  "copy_rate_cols df [] df_yoy = df_yoy"
| "copy_rate_cols df (col # rest) df_yoy =
     copy_rate_cols df rest
       (case get_col df col of
          Some xs \<Rightarrow> assign_series df_yoy col (as_series df xs)
        | None \<Rightarrow> df_yoy)"

definition add_profit_spread :: "frame \<Rightarrow> frame" where
  "add_profit_spread df_yoy =
     (case (get_col df_yoy CPI, get_col df_yoy PPI) of
        (Some a, Some b) \<Rightarrow> set_col df_yoy PROFIT_SPREAD (col_sub a b)
      | _ \<Rightarrow> df_yoy)"

definition process_data_v21 :: "bool \<Rightarrow> frame \<Rightarrow> frame \<times> frame" where
  "process_data_v21 pad df =
     (df, add_profit_spread
            (copy_rate_cols df rate_cols (yoy_index_cols pad df index_cols empty_frame)))"

section \<open>The base-effect simulator\<close>

text \<open>
  Tab 3 of cpi\_agent.py and tab 5 of cpi\_agent\_v2.1.py run the same loop over the
  headline CPI column \<open>hist\<close> of \<open>raw_df\<close>: \<open>iloc[-1]\<close> is the last level (\<open>IndexError\<close>
  on a column without rows), \<open>iloc[-13:-13+months_to_predict]\<close> the base levels; a
  slice clamps its two bounds at the start of the column.
\<close>

definition months_to_predict :: nat where
  "months_to_predict = 6"

definition base_indices :: "column \<Rightarrow> column" where
  "base_indices hist =
     drop (length hist - 13) (take (length hist - (13 - months_to_predict)) hist)"

fun sim_loop :: "column \<Rightarrow> fval \<Rightarrow> fval \<Rightarrow> nat \<Rightarrow> nat \<Rightarrow> column" where
  "sim_loop base growth current i 0 = []"
| "sim_loop base growth current i (Suc k) =
     (let current' = fmul current growth
      in (if i < length base
          then fmul (fsub (fdiv current' (base ! i)) (Num 1)) (Num 100)
          else NaN) # sim_loop base growth current' (Suc i) k)"

definition simulator :: "column \<Rightarrow> rat \<Rightarrow> error + column" where
  "simulator hist assumed_mom =
     (if hist = [] then Inl IndexError
      else Inr (sim_loop (base_indices hist) (Num (1 + assumed_mom)) (last hist) 0
                  months_to_predict))"

section \<open>The render cycles\<close>

text \<open>
  A render cycle ends with a reported failure (\<open>Inl\<close>: an exception caught by the
  script's \<open>except\<close>, or \<open>st.error\<close> followed by \<open>st.stop()\<close>) or hands its tables
  and latest values to the presentation code. The CPI scripts keep \<open>raw_df\<close>, the raw
  table after its rows were dropped, for the simulator tab; it is the first component
  of their result.
\<close>

type_synonym row = "(string \<times> fval) list"

text \<open>\<open>df.iloc[-k]\<close> for \<open>k \<ge> 1\<close>.\<close>

definition iloc_back :: "frame \<Rightarrow> nat \<Rightarrow> error + row" where
  "iloc_back df k =
     (let n = length (index df)
      in if k \<le> n then Inr (map (\<lambda>(c, xs). (c, xs ! (n - k))) (cols df))
         else Inl IndexError)"

definition latest_rows :: "frame \<Rightarrow> nat \<Rightarrow> error + frame \<times> row \<times> row" where
  "latest_rows df k =
     (case iloc_back df 1 of
        Inl e \<Rightarrow> Inl e
      | Inr latest \<Rightarrow>
          (case iloc_back df k of
             Inl e \<Rightarrow> Inl e
           | Inr prev \<Rightarrow> Inr (df, latest, prev)))"

definition main_cpi_v21 ::
  "bool \<Rightarrow> (string \<Rightarrow> series option) \<Rightarrow> error + frame \<times> frame \<times> row \<times> row" where
  "main_cpi_v21 pad fetch =
     (let (raw_df, errs) = get_macro_data_v21 fetch
      in if \<not> has_col raw_df CPI then Inl (Stop ''no CPI data'')
         else (case dropna_subset raw_df CPI of
                 Inl e \<Rightarrow> Inl e
               | Inr raw_df \<Rightarrow>
                   (case latest_rows (snd (process_data_v21 pad raw_df)) 2 of
                      Inl e \<Rightarrow> Inl e
                    | Inr (df_yoy, latest, prev) \<Rightarrow> Inr (raw_df, df_yoy, latest, prev))))"

text \<open>
  cpi\_agent.py up to its KPI cards: \<open>dropna()\<close> on the raw table, the derived tables
  and the spread (\<open>KeyError\<close> without headline CPI or PPI), \<open>df_yoy.index[-1]\<close>
  (\<open>IndexError\<close> on a table without rows), \<open>df_yoy['CPI (Core)']\<close> (\<open>KeyError\<close>) and
  \<open>iloc[-2]\<close> (\<open>IndexError\<close> on a single row).
\<close>

definition main_cpi ::
  "bool \<Rightarrow> (string \<Rightarrow> series option) \<Rightarrow> error + frame \<times> frame \<times> frame \<times> column" where
  "main_cpi pad fetch =
     (let (raw_df, errs) = get_macro_data fetch;
          raw_df = dropna raw_df;
          (df, df_yoy, df_mom) = process_data pad raw_df
      in case calculate_spread df_yoy of
           Inl e \<Rightarrow> Inl e
         | Inr spread \<Rightarrow>
             if index df_yoy = [] then Inl IndexError
             else if \<not> has_col df_yoy CPI_CORE then Inl (KeyError CPI_CORE)
             else if length (index df_yoy) < 2 then Inl IndexError
             else Inr (raw_df, df_yoy, df_mom, spread))"

definition main_rate_v2 ::
  "(string \<Rightarrow> series option) \<Rightarrow> error + frame \<times> row \<times> row" where
  "main_rate_v2 fetch =
     (case fst (get_rates_data_v2 fetch) of
        Inl e \<Rightarrow> Inl e
      | Inr raw_df \<Rightarrow>
          (let df = process_rates_data_v2 raw_df
           in if is_empty df then Inl (Stop ''no data'') else latest_rows df 7))"

text \<open>Rows of a table, for statements about which rows an operation keeps.\<close>

definition row_at :: "frame \<Rightarrow> nat \<Rightarrow> date \<times> row" where
  "row_at df k = (index df ! k, map (\<lambda>(c, xs). (c, xs ! k)) (cols df))"

definition rows :: "frame \<Rightarrow> (date \<times> row) list" where
  "rows df = map (row_at df) [0..<length (index df)]"

definition cell :: "date \<times> row \<Rightarrow> string \<Rightarrow> fval option" where
  "cell r c = map_of (snd r) c"

section \<open>Notions for the statements and example tables\<close>

text \<open>
  Two rows of the liquidity inputs in their native units: Fed assets and the TGA in
  millions of dollars, the reverse repo in billions.
\<close>

definition unit_example :: frame where
  "unit_example =
     \<lparr>index = [0, 1],
      cols = [(US_10Y, [Num 4, Num 4]),
              (FED_ASSETS, [Num 8900000, Num 9000000]),
              (TGA, [Num 650000, Num 700000]),
              (RRP, [Num 600, Num 500])]\<rparr>"

text \<open>The names under which the rate agents store what they derive.\<close>

definition derived_v2 :: "string set" where
  "derived_v2 = {NET_LIQ, CURVE}"

definition derived_v3 :: "string set" where
  "derived_v3 = {NET_LIQ, CURVE, LIQ_STRESS, SUPERCORE_YOY, BANK_RES_T}"

text \<open>The liquidity inputs without the reverse repo.\<close>

definition no_rrp_example :: frame where
  "no_rrp_example =
     \<lparr>index = [0, 1],
      cols = [(US_10Y, [Num 4, Num 4]),
              (FED_ASSETS, [Num 8900000, Num 9000000]),
              (TGA, [Num 650000, Num 700000])]\<rparr>"

text \<open>
  The observation of a series at a date, missing when it has none; and the most recent
  value of a column that is not missing at a position \<open>\<le> i\<close>, missing when there is
  none. \<open>spec_ffill\<close> is the table in which every cell holds that value.
\<close>

definition observed :: "series \<Rightarrow> date \<Rightarrow> fval" where
  "observed s d = (case map_of s d of Some v \<Rightarrow> v | None \<Rightarrow> NaN)"

definition last_valid :: "column \<Rightarrow> nat \<Rightarrow> fval" where
  "last_valid xs i =
     (case filter (\<lambda>v. \<not> isna v) (take (Suc i) xs) of
        [] \<Rightarrow> NaN
      | v # vs \<Rightarrow> last (v # vs))"

definition spec_ffill :: "frame \<Rightarrow> frame" where
  "spec_ffill df =
     df\<lparr>cols := map (\<lambda>(c, xs). (c, map (last_valid xs) [0..<length xs])) (cols df)\<rparr>"

text \<open>A table cut down to the columns with the given names.\<close>

definition restrict :: "frame \<Rightarrow> string list \<Rightarrow> frame" where
  "restrict df cs = df\<lparr>cols := filter (\<lambda>(c, xs). c \<in> set cs) (cols df)\<rparr>"

text \<open>
  The dates of the first series of a ticker table that was fetched and has
  observations.
\<close>

fun first_dates :: "(string \<Rightarrow> series option) \<Rightarrow> (string \<times> string) list \<Rightarrow> date list" where
  "first_dates fetch [] = []"
| "first_dates fetch ((code, name) # ts) =
     (case fetch code of
        Some s \<Rightarrow> if s \<noteq> [] then map fst s else first_dates fetch ts
      | None \<Rightarrow> first_dates fetch ts)"

text \<open>
  What a row holds, for statements about the rows a selection keeps: a value in column
  \<open>c\<close>, or a value in every column.
\<close>

definition has_value :: "date \<times> row \<Rightarrow> string \<Rightarrow> bool" where
  "has_value r c = (case cell r c of Some v \<Rightarrow> \<not> isna v | None \<Rightarrow> False)"

definition complete :: "date \<times> row \<Rightarrow> bool" where
  "complete r = list_all (\<lambda>(c, v). \<not> isna v) (snd r)"

text \<open>
  The positions of the rows of a table that have a value in column \<open>a\<close>.
\<close>

definition kept_positions :: "frame \<Rightarrow> string \<Rightarrow> nat list" where
  "kept_positions df a =
     filter (\<lambda>k. has_value (row_at df k) a) [0..<length (index df)]"

text \<open>Every column of a table has the length of its index.\<close>

definition wf_frame :: "frame \<Rightarrow> bool" where
  "wf_frame df = list_all (\<lambda>(c, xs). length xs = length (index df)) (cols df)"

text \<open>
  \<open>df_yoy\<close> while the loops of \<open>process_data\<close> fill it: still without rows and
  columns, or on the dates of \<open>df\<close>.
\<close>

definition aligned :: "frame \<Rightarrow> frame \<Rightarrow> bool" where
  "aligned df out = (index out = index df \<or> (index out = [] \<and> cols out = []))"

text \<open>
  An index observed at 100 and, twelve rows later, at 110, monthly and daily; and a
  table with rate columns.
\<close>

definition yoy_example :: frame where
  "yoy_example =
     \<lparr>index = [0..<13],
      cols = [(CPI, Num 100 # replicate 11 NaN @ [Num 110]),
              (STICKY, replicate 12 (Num 4) @ [Num (7 / 2)])]\<rparr>"

definition supercore_example :: frame where
  "supercore_example =
     \<lparr>index = [0..<253],
      cols = [(US_10Y, replicate 253 (Num 4)),
              (SUPERCORE_IDX, Num 100 # replicate 251 NaN @ [Num 110])]\<rparr>"

definition rate_example :: frame where
  "rate_example =
     \<lparr>index = [0, 1],
      cols = [(CPI, [Num 300, Num 301]), (STICKY, [Num (7 / 2), Num (18 / 5)]),
              (BREAKEVEN, [Num 2, NaN])]\<rparr>"

text \<open>
  A table with a headline CPI in every row and a PCE index whose latest row is not
  published yet.
\<close>

definition gap_yoy_example :: frame where
  "gap_yoy_example =
     \<lparr>index = [0..<13],
      cols = [(CPI, replicate 13 (Num 300)),
              (PCE, Num 100 # replicate 11 (Num 120) @ [NaN])]\<rparr>"

text \<open>
  The simulator as the specification words it: the level after step \<open>i\<close> is the last
  level compounded \<open>i + 1\<close> times, and step \<open>i\<close> is compared with the level observed
  12 rows before the last one plus \<open>i\<close> rows, when the history has such a row, and has
  no value otherwise.
\<close>

definition level :: "fval \<Rightarrow> fval \<Rightarrow> nat \<Rightarrow> fval" where
  "level l g i = ((\<lambda>x. fmul x g) ^^ Suc i) l"

definition spec_simulator :: "column \<Rightarrow> rat \<Rightarrow> column" where
  "spec_simulator hist assumed_mom =
     map (\<lambda>i. if 13 \<le> length hist + i
              then fmul (fsub (fdiv (level (last hist) (Num (1 + assumed_mom)) i)
                                 (hist ! (length hist + i - 13))) (Num 1)) (Num 100)
              else NaN)
       [0..<months_to_predict]"

definition short_history :: column where
  "short_history = map Num [303, 304, 305, 306, 307, 308, 309, 310]"

text \<open>
  The display names of the tickers whose fetch succeeds, and of those whose fetch
  fails, in the order of the ticker table.
\<close>

definition fetched :: "(string \<Rightarrow> series option) \<Rightarrow> (string \<times> string) list \<Rightarrow> string list" where
  "fetched fetch ts = map snd (filter (\<lambda>(code, name). fetch code \<noteq> None) ts)"

definition failed :: "(string \<Rightarrow> series option) \<Rightarrow> (string \<times> string) list \<Rightarrow> string list" where
  "failed fetch ts = map snd (filter (\<lambda>(code, name). fetch code = None) ts)"

text \<open>
  A provider that has four of the series, the two anchors among them, and one that
  lacks both anchors.
\<close>

definition partial_fetch :: "string \<Rightarrow> series option" where
  "partial_fetch code =
     (if code = ''DGS10'' then Some [(0, Num 4), (1, Num 5)]
      else if code = ''WALCL'' then Some [(1, Num 9000000)]
      else if code = ''CPIAUCSL'' then Some [(0, Num 300), (1, Num 301)]
      else if code = ''PPIFIS'' then Some [(0, Num 140)]
      else None)"

definition no_anchor_fetch :: "string \<Rightarrow> series option" where
  "no_anchor_fetch code =
     (if code = ''DGS2'' \<or> code = ''PPIFIS'' then Some [(0, Num 1), (1, Num 2)] else None)"

text \<open>
  Providers for the rate agents and the CPI agents: yields with the 2-year yield
  observed at dates 0 and 3 only; a headline CPI whose first observation is missing;
  a headline and a core CPI on three dates with a PPI on two of them.
\<close>

definition rates_fetch :: "string \<Rightarrow> series option" where
  "rates_fetch code =
     (if code = ''DGS10'' then Some [(0, Num 4), (1, Num 4), (2, Num 4), (3, Num 5)]
      else if code = ''DGS2'' then Some [(0, Num 3), (3, Num 2)]
      else if code = ''CUSR0000SAD'' then Some [(1, Num 100)]
      else None)"

definition anchor_fetch :: "string \<Rightarrow> series option" where
  "anchor_fetch code =
     (if code = ''CPIAUCSL'' then Some [(0, NaN), (1, Num 300), (2, Num 301)]
      else if code = ''PPIFIS'' then Some [(0, Num 140), (2, Num 141)]
      else None)"

definition gap_fetch :: "string \<Rightarrow> series option" where
  "gap_fetch code =
     (if code = ''CPIAUCSL'' then Some [(0, Num 300), (1, Num 301), (2, Num 302)]
      else if code = ''CPILFESL'' then Some [(0, Num 310), (1, Num 311), (2, Num 312)]
      else if code = ''PPIFIS'' then Some [(0, Num 140), (2, Num 141)]
      else None)"

text \<open>
  The tables these providers lead to, and an input of the first rate agent with the
  table it returns.
\<close>

definition rates_raw :: frame where
  "rates_raw =
     \<lparr>index = [0, 1, 2, 3],
      cols = [(US_10Y, [Num 4, Num 4, Num 4, Num 5]),
              (US_2Y, [Num 3, Num 3, Num 3, Num 2])]\<rparr>"

definition rates_raw_v3 :: frame where
  "rates_raw_v3 =
     \<lparr>index = [0, 1, 2, 3],
      cols = [(US_10Y, [Num 4, Num 4, Num 4, Num 5]),
              (US_2Y, [Num 3, Num 3, Num 3, Num 2]),
              (SUPERCORE_IDX, [NaN, Num 100, Num 100, Num 100])]\<rparr>"

definition anchor_kept :: frame where
  "anchor_kept =
     \<lparr>index = [1, 2], cols = [(CPI, [Num 300, Num 301]), (PPI, [NaN, Num 141])]\<rparr>"

definition gap_raw :: frame where
  "gap_raw =
     \<lparr>index = [0, 1, 2],
      cols = [(CPI, [Num 300, Num 301, Num 302]),
              (CPI_CORE, [Num 310, Num 311, Num 312]),
              (PPI, [Num 140, NaN, Num 141])]\<rparr>"

definition gap_kept :: frame where
  "gap_kept =
     \<lparr>index = [0, 2],
      cols = [(CPI, [Num 300, Num 302]),
              (CPI_CORE, [Num 310, Num 312]),
              (PPI, [Num 140, Num 141])]\<rparr>"

definition v1_raw :: frame where
  "v1_raw =
     \<lparr>index = [0, 1, 2, 3],
      cols = [(US_10Y, [NaN, Num 4, NaN, Num 5]),
              (US_2Y, [Num 3, NaN, NaN, Num 2])]\<rparr>"

definition v1_kept :: frame where
  "v1_kept =
     \<lparr>index = [1, 2, 3],
      cols = [(US_10Y, [Num 4, Num 4, Num 5]),
              (US_2Y, [Num 3, Num 3, Num 2])]\<rparr>"

definition v1_out :: frame where
  "v1_out = v1_kept\<lparr>cols := cols v1_kept @ [(CURVE, [Num 1, Num 1, Num 3])]\<rparr>"

section \<open>Properties\<close>

lemmas names_defs = US_10Y_def US_2Y_def FED_ASSETS_def TGA_def RRP_def NET_LIQ_def
  CURVE_def SOFR_def IORB_def LIQ_STRESS_def SUPERCORE_IDX_def SUPERCORE_YOY_def
  BANK_RES_def BANK_RES_T_def CPI_def CPI_CORE_def PPI_def PCE_def STICKY_def
  US_10Y_YIELD_def SUPERCORE_def USED_CARS_def SHELTER_def CHINA_def BREAKEVEN_def
  REAL_10Y_def PROFIT_SPREAD_def

subsection \<open>Columns of a table\<close>

lemma get_col_set_col:
  "get_col (set_col df c vs) c' = (if c' = c then Some vs else get_col df c')"
  by (simp add: get_col_def set_col_def update_conv')

lemma index_set_col: "index (set_col df c vs) = index df"
  by (simp add: set_col_def)

lemma columns_set_col: "set (columns (set_col df c vs)) = insert c (set (columns df))"
  by (simp add: columns_def set_col_def dom_update)

lemma has_col_get_col: "has_col df c \<longleftrightarrow> get_col df c \<noteq> None"
  by (simp add: has_col_def columns_def get_col_def map_of_eq_None_iff)

lemma has_col_set_col: "has_col (set_col df c vs) c' \<longleftrightarrow> c' = c \<or> has_col df c'"
  by (simp add: has_col_get_col get_col_set_col)

lemma get_col_set_scalar:
  "get_col (set_scalar df c v) c' =
     (if c' = c then Some (replicate (length (index df)) v) else get_col df c')"
  by (simp add: set_scalar_def get_col_set_col)

lemma index_set_scalar: "index (set_scalar df c v) = index df"
  by (simp add: set_scalar_def index_set_col)

lemma has_col_set_scalar: "has_col (set_scalar df c v) c' \<longleftrightarrow> c' = c \<or> has_col df c'"
  by (simp add: set_scalar_def has_col_set_col)

lemmas frame_simps = get_col_set_col index_set_col has_col_set_col get_col_set_scalar
  index_set_scalar has_col_set_scalar

lemma add_curve_frame:
  "index (add_curve df) = index df"
  "c \<noteq> CURVE \<Longrightarrow> get_col (add_curve df) c = get_col df c"
  "has_col (add_curve df) c \<Longrightarrow> c = CURVE \<or> has_col df c"
  by (auto simp: add_curve_def frame_simps split: option.splits)

lemma add_net_liquidity_frame:
  "index (add_net_liquidity df) = index df"
  "c \<noteq> NET_LIQ \<Longrightarrow> get_col (add_net_liquidity df) c = get_col df c"
  "has_col (add_net_liquidity df) c \<Longrightarrow> c = NET_LIQ \<or> has_col df c"
  by (auto simp: add_net_liquidity_def frame_simps Let_def split: option.splits)

lemma add_net_liquidity_v1_frame:
  "index (add_net_liquidity_v1 df) = index df"
  "c \<noteq> NET_LIQ \<Longrightarrow> get_col (add_net_liquidity_v1 df) c = get_col df c"
  "has_col (add_net_liquidity_v1 df) c \<Longrightarrow> c = NET_LIQ \<or> has_col df c"
  by (auto simp: add_net_liquidity_v1_def frame_simps Let_def split: option.splits)

lemma add_liquidity_stress_frame:
  "index (add_liquidity_stress df) = index df"
  "c \<noteq> LIQ_STRESS \<Longrightarrow> get_col (add_liquidity_stress df) c = get_col df c"
  "has_col (add_liquidity_stress df) c \<Longrightarrow> c = LIQ_STRESS \<or> has_col df c"
  by (auto simp: add_liquidity_stress_def frame_simps split: option.splits)

lemma add_supercore_yoy_frame:
  "index (add_supercore_yoy pad df) = index df"
  "c \<noteq> SUPERCORE_YOY \<Longrightarrow> get_col (add_supercore_yoy pad df) c = get_col df c"
  "has_col (add_supercore_yoy pad df) c \<Longrightarrow> c = SUPERCORE_YOY \<or> has_col df c"
  by (auto simp: add_supercore_yoy_def frame_simps split: option.splits)

lemma add_bank_reserves_frame:
  "index (add_bank_reserves df) = index df"
  "c \<noteq> BANK_RES_T \<Longrightarrow> get_col (add_bank_reserves df) c = get_col df c"
  "has_col (add_bank_reserves df) c \<Longrightarrow> c = BANK_RES_T \<or> has_col df c"
  by (auto simp: add_bank_reserves_def frame_simps split: option.splits)

subsection \<open>Unit normalization\<close>

text \<open>
  With the three inputs present, v2 and v3 divide Fed assets and the TGA by 1,000,000
  and the reverse repo by 1,000, row by row.
\<close>

lemma net_liquidity_columns:
  assumes "get_col df FED_ASSETS = Some f" and "get_col df TGA = Some t"
    and "get_col df RRP = Some r"
  shows "get_col (process_rates_data_v2 df) NET_LIQ =
           Some (col_sub (col_sub (col_div f 1000000) (col_div t 1000000)) (col_div r 1000))"
    and "get_col (process_rates_data_v3 pad df) NET_LIQ =
           Some (col_sub (col_sub (col_div f 1000000) (col_div t 1000000)) (col_div r 1000))"
proof -
  have "get_col (add_net_liquidity df) NET_LIQ =
      Some (col_sub (col_sub (col_div f 1000000) (col_div t 1000000)) (col_div r 1000))"
    using assms by (simp add: add_net_liquidity_def Let_def frame_simps)
  then show "get_col (process_rates_data_v2 df) NET_LIQ =
           Some (col_sub (col_sub (col_div f 1000000) (col_div t 1000000)) (col_div r 1000))"
    and "get_col (process_rates_data_v3 pad df) NET_LIQ =
           Some (col_sub (col_sub (col_div f 1000000) (col_div t 1000000)) (col_div r 1000))"
    by (simp_all add: process_rates_data_v2_def process_rates_data_v3_def add_curve_frame
        add_bank_reserves_frame add_supercore_yoy_frame add_liquidity_stress_frame names_defs)
qed

lemma net_liquidity_cell:
  assumes "k < length f" and "k < length t" and "k < length r"
    and "f ! k = Num a" and "t ! k = Num b" and "r ! k = Num c"
  shows "col_sub (col_sub (col_div f 1000000) (col_div t 1000000)) (col_div r 1000) ! k =
           Num (a / 1000000 - b / 1000000 - c / 1000)"
  using assms by (simp add: col_sub_def col_div_def)

text \<open>
  On the example, v2 and v3 reach 9.0 - 0.7 - 0.5 = 7.8 trillions in the latest row.
\<close>

lemma net_liquidity_v2_example:
  "process_rates_data_v2 unit_example =
     unit_example\<lparr>cols := cols unit_example @
       [(NET_LIQ, [Num (153 / 20), Num (39 / 5)])]\<rparr>"
  by code_simp

lemma net_liquidity_v3_example:
  "process_rates_data_v3 pad unit_example =
     unit_example\<lparr>cols := cols unit_example @
       [(NET_LIQ, [Num (153 / 20), Num (39 / 5)])]\<rparr>"
  by (simp add: process_rates_data_v3_def add_curve_def add_bank_reserves_def
      add_supercore_yoy_def add_liquidity_stress_def add_net_liquidity_def
      unit_example_def get_col_def set_col_def col_div_def col_sub_def names_defs)

text \<open>
  C1. The normalizer divides each liquidity input by the factor of its native unit, so
  that Fed assets of 9,000,000 (millions), a TGA of 700,000 (millions) and a reverse
  repo of 500 (billions) give a net liquidity of 7.8. The first rate agent divides the
  TGA by 1000, as if it were in billions: on that row it computes
  9.0 - 700 - 0.5 = -691.5.
\<close>

theorem net_liquidity_v1_wrong_scale:
  "process_rates_data_v1 unit_example =
     Inr (unit_example\<lparr>cols := cols unit_example @
       [(NET_LIQ, [Num (- (6417 / 10)), Num (- (1383 / 2))])]\<rparr>)"
  by code_simp

subsection \<open>Composite metrics without their inputs\<close>

lemma has_col_ffill: "has_col (ffill df) c = has_col df c"
  by (simp add: has_col_def columns_def ffill_def comp_def case_prod_unfold)

lemma has_col_take_rows: "has_col (take_rows df ks) c = has_col df c"
  by (simp add: has_col_def columns_def take_rows_def comp_def case_prod_unfold)

lemma dropna_subset_has_col:
  "dropna_subset df a = Inr df' \<Longrightarrow> has_col df' c = has_col df c"
  by (auto simp: dropna_subset_def has_col_take_rows split: option.splits)

lemma v1_has_col:
  assumes "process_rates_data_v1 df = Inr out" and "has_col out c"
  shows "c = CURVE \<or> c = NET_LIQ \<or> has_col df c"
proof -
  from assms(1) obtain df' where d: "dropna_subset (ffill df) US_10Y = Inr df'"
    and o: "out = add_curve (add_net_liquidity_v1 df')"
    by (auto simp: process_rates_data_v1_def split: sum.splits)
  from assms(2) o have "c = CURVE \<or> c = NET_LIQ \<or> has_col df' c"
    using add_curve_frame(3) add_net_liquidity_v1_frame(3) by blast
  with d show ?thesis by (simp add: dropna_subset_has_col has_col_ffill)
qed

lemma add_net_liquidity_v1_absent:
  assumes "\<not> (has_col df FED_ASSETS \<and> has_col df TGA \<and> has_col df RRP)"
  shows "add_net_liquidity_v1 df = df"
  using assms by (auto simp: add_net_liquidity_v1_def has_col_get_col split: option.splits)

lemma add_net_liquidity_absent:
  assumes "\<not> (has_col df FED_ASSETS \<and> has_col df TGA \<and> has_col df RRP)"
  shows "add_net_liquidity df = set_scalar df NET_LIQ NaN"
  using assms by (auto simp: add_net_liquidity_def has_col_get_col split: option.splits)

lemma add_curve_absent:
  assumes "\<not> (has_col df US_10Y \<and> has_col df US_2Y)"
  shows "add_curve df = df"
  using assms by (auto simp: add_curve_def has_col_get_col split: option.splits)

lemma add_liquidity_stress_absent:
  assumes "\<not> (has_col df SOFR \<and> has_col df IORB)"
  shows "add_liquidity_stress df = df"
  using assms by (auto simp: add_liquidity_stress_def has_col_get_col split: option.splits)

lemma v2_net_liquidity_absent_inputs:
  assumes "\<not> (has_col df FED_ASSETS \<and> has_col df TGA \<and> has_col df RRP)"
  shows "get_col (process_rates_data_v2 df) NET_LIQ = Some (replicate (length (index df)) NaN)"
  using assms
  by (simp add: process_rates_data_v2_def add_net_liquidity_absent add_curve_frame(2)
      frame_simps names_defs)

lemma v3_net_liquidity_absent_inputs:
  assumes "\<not> (has_col df FED_ASSETS \<and> has_col df TGA \<and> has_col df RRP)"
  shows "get_col (process_rates_data_v3 pad df) NET_LIQ = Some (replicate (length (index df)) NaN)"
  using assms
  by (simp add: process_rates_data_v3_def add_net_liquidity_absent add_curve_frame(2)
      add_bank_reserves_frame(2) add_supercore_yoy_frame(2) add_liquidity_stress_frame(2)
      frame_simps names_defs)

lemma has_col_other:
  "c \<noteq> NET_LIQ \<Longrightarrow> has_col (add_net_liquidity df) c = has_col df c"
  "c \<noteq> NET_LIQ \<Longrightarrow> has_col (add_net_liquidity_v1 df) c = has_col df c"
  "c \<noteq> CURVE \<Longrightarrow> has_col (add_curve df) c = has_col df c"
  "c \<noteq> LIQ_STRESS \<Longrightarrow> has_col (add_liquidity_stress df) c = has_col df c"
  "c \<noteq> SUPERCORE_YOY \<Longrightarrow> has_col (add_supercore_yoy pad df) c = has_col df c"
  "c \<noteq> BANK_RES_T \<Longrightarrow> has_col (add_bank_reserves df) c = has_col df c"
  by (simp_all add: has_col_get_col add_net_liquidity_frame add_net_liquidity_v1_frame
      add_curve_frame add_liquidity_stress_frame add_supercore_yoy_frame
      add_bank_reserves_frame)

lemma v1_net_liquidity_omitted:
  assumes "process_rates_data_v1 df = Inr out"
    and "\<not> (has_col df FED_ASSETS \<and> has_col df TGA \<and> has_col df RRP)"
    and "\<not> has_col df NET_LIQ"
  shows "\<not> has_col out NET_LIQ"
proof -
  from assms(1) obtain df' where d: "dropna_subset (ffill df) US_10Y = Inr df'"
    and o: "out = add_curve (add_net_liquidity_v1 df')"
    by (auto simp: process_rates_data_v1_def split: sum.splits)
  have same: "has_col df' c = has_col df c" for c
    using d by (simp add: dropna_subset_has_col has_col_ffill)
  have "add_net_liquidity_v1 df' = df'"
    using assms(2) by (intro add_net_liquidity_v1_absent) (simp add: same)
  then show ?thesis
    using assms(3) by (simp add: o has_col_other same names_defs)
qed

lemma v1_curve_omitted:
  assumes "process_rates_data_v1 df = Inr out"
    and "\<not> (has_col df US_10Y \<and> has_col df US_2Y)"
    and "\<not> has_col df CURVE"
  shows "\<not> has_col out CURVE"
proof -
  from assms(1) obtain df' where d: "dropna_subset (ffill df) US_10Y = Inr df'"
    and o: "out = add_curve (add_net_liquidity_v1 df')"
    by (auto simp: process_rates_data_v1_def split: sum.splits)
  have same: "has_col df' c = has_col df c" for c
    using d by (simp add: dropna_subset_has_col has_col_ffill)
  have "add_curve (add_net_liquidity_v1 df') = add_net_liquidity_v1 df'"
    using assms(2) by (intro add_curve_absent) (simp add: has_col_other same names_defs)
  then show ?thesis
    using assms(3) by (simp add: o has_col_other same names_defs)
qed

lemma v2_curve_omitted:
  assumes "\<not> (has_col df US_10Y \<and> has_col df US_2Y)" and "\<not> has_col df CURVE"
  shows "\<not> has_col (process_rates_data_v2 df) CURVE"
proof -
  have "add_curve (add_net_liquidity df) = add_net_liquidity df"
    using assms(1) by (intro add_curve_absent) (simp add: has_col_other names_defs)
  then show ?thesis
    using assms(2) by (simp add: process_rates_data_v2_def has_col_other names_defs)
qed

lemma v3_curve_omitted:
  assumes "\<not> (has_col df US_10Y \<and> has_col df US_2Y)" and "\<not> has_col df CURVE"
  shows "\<not> has_col (process_rates_data_v3 pad df) CURVE"
proof -
  let ?d = "add_bank_reserves (add_supercore_yoy pad
       (add_liquidity_stress (add_net_liquidity df)))"
  have "add_curve ?d = ?d"
    using assms(1) by (intro add_curve_absent) (simp add: has_col_other names_defs)
  then show ?thesis
    using assms(2) by (simp add: process_rates_data_v3_def has_col_other names_defs)
qed

lemma v3_liquidity_stress_omitted:
  assumes "\<not> (has_col df SOFR \<and> has_col df IORB)" and "\<not> has_col df LIQ_STRESS"
  shows "\<not> has_col (process_rates_data_v3 pad df) LIQ_STRESS"
proof -
  have "add_liquidity_stress (add_net_liquidity df) = add_net_liquidity df"
    using assms(1) by (intro add_liquidity_stress_absent) (simp add: has_col_other names_defs)
  then show ?thesis
    using assms(2) by (simp add: process_rates_data_v3_def has_col_other names_defs)
qed

text \<open>
  C2 as the code has it. Without its three inputs the net liquidity of v2 and v3 is a
  column that is \<open>NaN\<close> in every row (the \<open>else\<close> branch), neither zero nor partly
  computed. The first rate agent has no such branch and leaves the column out, and so
  do all three agents for the curve spread and v3 for the liquidity stress, on a table
  that has no column of that name already.
\<close>

theorem composite_metric_omission:
  "(\<not> (has_col df FED_ASSETS \<and> has_col df TGA \<and> has_col df RRP) \<longrightarrow>
      get_col (process_rates_data_v2 df) NET_LIQ = Some (replicate (length (index df)) NaN) \<and>
      get_col (process_rates_data_v3 pad df) NET_LIQ = Some (replicate (length (index df)) NaN)) \<and>
   (\<not> (has_col df FED_ASSETS \<and> has_col df TGA \<and> has_col df RRP) \<and> \<not> has_col df NET_LIQ \<and>
      process_rates_data_v1 df = Inr out \<longrightarrow> \<not> has_col out NET_LIQ) \<and>
   (\<not> (has_col df US_10Y \<and> has_col df US_2Y) \<and> \<not> has_col df CURVE \<longrightarrow>
      \<not> has_col (process_rates_data_v2 df) CURVE \<and>
      \<not> has_col (process_rates_data_v3 pad df) CURVE \<and>
      (process_rates_data_v1 df = Inr out \<longrightarrow> \<not> has_col out CURVE)) \<and>
   (\<not> (has_col df SOFR \<and> has_col df IORB) \<and> \<not> has_col df LIQ_STRESS \<longrightarrow>
      \<not> has_col (process_rates_data_v3 pad df) LIQ_STRESS)"
  using v2_net_liquidity_absent_inputs v3_net_liquidity_absent_inputs
    v1_net_liquidity_omitted v1_curve_omitted v2_curve_omitted v3_curve_omitted
    v3_liquidity_stress_omitted
  by blast

theorem composite_metric_omission_witness:
  "\<not> has_col no_rrp_example RRP \<and> \<not> has_col no_rrp_example NET_LIQ \<and>
   \<not> has_col no_rrp_example US_2Y \<and> \<not> has_col no_rrp_example CURVE \<and>
   \<not> has_col no_rrp_example SOFR \<and> \<not> has_col no_rrp_example LIQ_STRESS \<and>
   process_rates_data_v1 no_rrp_example = Inr no_rrp_example \<and>
   get_col (process_rates_data_v2 no_rrp_example) NET_LIQ = Some [NaN, NaN] \<and>
   get_col (process_rates_data_v3 True no_rrp_example) NET_LIQ = Some [NaN, NaN] \<and>
   \<not> has_col (process_rates_data_v2 no_rrp_example) CURVE \<and>
   \<not> has_col (process_rates_data_v3 True no_rrp_example) CURVE \<and>
   \<not> has_col (process_rates_data_v3 True no_rrp_example) LIQ_STRESS"
proof -
  have h: "\<not> has_col no_rrp_example RRP" "\<not> has_col no_rrp_example NET_LIQ"
    "\<not> has_col no_rrp_example US_2Y" "\<not> has_col no_rrp_example CURVE"
    "\<not> has_col no_rrp_example SOFR" "\<not> has_col no_rrp_example LIQ_STRESS"
    by (simp_all add: has_col_def columns_def no_rrp_example_def names_defs)
  have v1: "process_rates_data_v1 no_rrp_example = Inr no_rrp_example"
    by code_simp
  have len: "replicate (length (index no_rrp_example)) NaN = [NaN, NaN]"
    by (simp add: no_rrp_example_def)
  show ?thesis
    using composite_metric_omission [of no_rrp_example True no_rrp_example] h v1 len
    by simp
qed

text \<open>
  C2 as stated fails in v2: without the reverse repo the output has a column
  \<open>'Net Liquidity'\<close>, all of it \<open>NaN\<close>.
\<close>

theorem net_liquidity_present_without_rrp:
  "\<not> has_col no_rrp_example RRP \<and>
   has_col (process_rates_data_v2 no_rrp_example) NET_LIQ \<and>
   get_col (process_rates_data_v2 no_rrp_example) NET_LIQ = Some [NaN, NaN]"
  by code_simp

subsection \<open>Forward fill of a column\<close>

lemma length_ffill_from: "length (ffill_from p xs) = length xs"
  by (induction xs arbitrary: p) auto

lemma ffill_from_nth_none:
  "i < length xs \<Longrightarrow> \<forall>j\<le>i. isna (xs ! j) \<Longrightarrow> ffill_from p xs ! i = p"
proof (induction xs arbitrary: p i)
  case Nil
  then show ?case by simp
next
  case (Cons x xs)
  from Cons.prems(2) have x: "isna x" by force
  show ?case
  proof (cases i)
    case 0
    with x show ?thesis by simp
  next
    case (Suc n)
    have "\<forall>j\<le>n. isna (xs ! j)"
      using Cons.prems(2) Suc by force
    with Cons.IH [of n p] Cons.prems(1) Suc x show ?thesis by simp
  qed
qed

lemma ffill_from_nth_some:
  "i < length xs \<Longrightarrow> j \<le> i \<Longrightarrow> \<not> isna (xs ! j) \<Longrightarrow>
   \<forall>k. j < k \<and> k \<le> i \<longrightarrow> isna (xs ! k) \<Longrightarrow> ffill_from p xs ! i = xs ! j"
proof (induction xs arbitrary: p i j)
  case Nil
  then show ?case by simp
next
  case (Cons x xs)
  show ?case
  proof (cases j)
    case 0
    note j0 = this
    with Cons.prems(3) have x: "\<not> isna x" by simp
    show ?thesis
    proof (cases i)
      case 0
      with x j0 show ?thesis by simp
    next
      case (Suc n)
      have "\<forall>k\<le>n. isna (xs ! k)"
        using Cons.prems(4) Suc j0 by force
      then have "ffill_from x xs ! n = x"
        using Cons.prems(1) Suc by (intro ffill_from_nth_none) auto
      with x Suc j0 show ?thesis by simp
    qed
  next
    case (Suc m)
    with Cons.prems(2) obtain n where i: "i = Suc n" and mn: "m \<le> n"
      by (cases i) auto
    have gap: "\<forall>k. m < k \<and> k \<le> n \<longrightarrow> isna (xs ! k)"
      using Cons.prems(4) Suc i by force
    have "ffill_from q xs ! n = xs ! m" for q
      using Cons.IH [of n m q] Cons.prems(1,3) Suc i mn gap by simp
    with Suc i show ?thesis by simp
  qed
qed

lemma get_col_ffill: "get_col (ffill df) c = map_option ffill_col (get_col df c)"
  by (simp add: get_col_def ffill_def map_of_map)

lemma index_ffill: "index (ffill df) = index df"
  by (simp add: ffill_def)

text \<open>
  The filled column holds at every position the most recent value that is not missing,
  so \<open>ffill\<close> is the table \<open>spec_ffill\<close>.
\<close>

lemma ffill_from_last_valid:
  "i < length xs \<Longrightarrow>
   ffill_from p xs ! i =
     (case filter (\<lambda>v. \<not> isna v) (take (Suc i) xs) of [] \<Rightarrow> p | v # vs \<Rightarrow> last (v # vs))"
proof (induction xs arbitrary: p i)
  case Nil
  then show ?case by simp
next
  case (Cons x xs)
  show ?case
  proof (cases i)
    case 0
    then show ?thesis by simp
  next
    case (Suc n)
    with Cons.prems have n: "n < length xs" by simp
    show ?thesis
    proof (cases "isna x")
      case True
      with Suc Cons.IH [OF n, of p] show ?thesis by simp
    next
      case False
      with Suc Cons.IH [OF n, of x] show ?thesis
        by (simp split: list.splits)
    qed
  qed
qed

lemma ffill_col_last_valid: "ffill_col xs = map (last_valid xs) [0..<length xs]"
  by (rule nth_equalityI)
    (simp_all add: ffill_col_def length_ffill_from ffill_from_last_valid last_valid_def)

lemma ffill_spec: "ffill df = spec_ffill df"
  by (simp add: ffill_def spec_ffill_def ffill_col_last_valid)

lemma last_valid_none:
  assumes "i < length xs" and "\<forall>j\<le>i. isna (xs ! j)"
  shows "last_valid xs i = NaN"
proof -
  have "ffill_col xs ! i = last_valid xs i"
    using assms(1) by (simp add: ffill_col_last_valid)
  moreover have "ffill_col xs ! i = NaN"
    using assms by (simp add: ffill_col_def ffill_from_nth_none)
  ultimately show ?thesis by simp
qed

lemma last_valid_some:
  assumes "i < length xs" and "j \<le> i" and "\<not> isna (xs ! j)"
    and "\<forall>k. j < k \<and> k \<le> i \<longrightarrow> isna (xs ! k)"
  shows "last_valid xs i = xs ! j"
proof -
  have "ffill_col xs ! i = last_valid xs i"
    using assms(1) by (simp add: ffill_col_last_valid)
  moreover have "ffill_col xs ! i = xs ! j"
    using assms unfolding ffill_col_def by (intro ffill_from_nth_some) auto
  ultimately show ?thesis by simp
qed

subsection \<open>Rows of a table\<close>

lemma rows_take_rows: "rows (take_rows df ks) = map (row_at df) ks"
proof -
  have "row_at (take_rows df ks) j = row_at df (ks ! j)" if "j < length ks" for j
    using that by (simp add: row_at_def take_rows_def comp_def case_prod_unfold)
  then have "map (row_at (take_rows df ks)) [0..<length ks] = map (\<lambda>j. row_at df (ks ! j)) [0..<length ks]"
    by simp
  also have "\<dots> = map (row_at df) ks"
    by (simp add: map_nth flip: map_map [unfolded comp_def])
  finally show ?thesis by (simp add: rows_def take_rows_def)
qed

lemma cell_row_at: "cell (row_at df k) c = map_option (\<lambda>xs. xs ! k) (get_col df c)"
  by (simp add: cell_def row_at_def get_col_def map_of_map)

lemma has_value_row_at:
  "get_col df c = Some xs \<Longrightarrow> has_value (row_at df k) c = (\<not> isna (xs ! k))"
  by (simp add: has_value_def cell_row_at)

lemma complete_row_at:
  "complete (row_at df k) = list_all (\<lambda>(c, xs). \<not> isna (xs ! k)) (cols df)"
  by (simp add: complete_def row_at_def list.pred_map comp_def case_prod_unfold)

lemma rows_dropna_subset:
  assumes "dropna_subset df a = Inr df'"
  shows "rows df' = filter (\<lambda>r. has_value r a) (rows df)"
proof -
  from assms obtain xs where xs: "get_col df a = Some xs"
    and df': "df' = take_rows df (filter (\<lambda>k. \<not> isna (xs ! k)) [0..<length (index df)])"
    by (auto simp: dropna_subset_def split: option.splits)
  have "rows df' = map (row_at df) (filter (\<lambda>k. \<not> isna (xs ! k)) [0..<length (index df)])"
    unfolding df' by (rule rows_take_rows)
  also have "\<dots> = filter (\<lambda>r. has_value r a) (rows df)"
    by (simp add: rows_def filter_map comp_def has_value_row_at [OF xs])
  finally show ?thesis .
qed

lemma rows_dropna: "rows (dropna df) = filter complete (rows df)"
proof -
  have "rows (dropna df) =
      map (row_at df) (filter (\<lambda>k. list_all (\<lambda>(c, xs). \<not> isna (xs ! k)) (cols df))
          [0..<length (index df)])"
    unfolding dropna_def by (rule rows_take_rows)
  also have "\<dots> = filter complete (rows df)"
    by (simp add: rows_def filter_map comp_def complete_row_at)
  finally show ?thesis .
qed

lemma dropna_rows_have_anchor:
  assumes "has_col df a" and "r \<in> set (rows (dropna df))"
  shows "has_value r a"
proof -
  from assms(2) have r: "r \<in> set (rows df)" and c: "complete r"
    by (simp_all add: rows_dropna)
  from r obtain k where k: "r = row_at df k"
    by (auto simp: rows_def)
  from assms(1) obtain xs where xs: "get_col df a = Some xs"
    by (auto simp: has_col_get_col)
  then have "(a, xs) \<in> set (cols df)"
    by (simp add: get_col_def map_of_SomeD)
  with c k have "\<not> isna (xs ! k)"
    by (auto simp: complete_row_at list_all_iff)
  with xs k show ?thesis by (simp add: has_value_row_at)
qed

subsection \<open>Columns of the fetched tables\<close>

lemma columns_set_col_list:
  "columns (set_col df c vs) =
     (if c \<in> set (columns df) then columns df else columns df @ [c])"
  by (simp add: set_col_def columns_def update_keys)

lemma columns_assign_series:
  "columns (assign_series df c s) =
     (if c \<in> set (columns df) then columns df else columns df @ [c])"
proof -
  define df1 where "df1 = (if index df = [] \<and> s \<noteq> []
                 then \<lparr>index = map fst s,
                       cols = map (\<lambda>(n, xs). (n, replicate (length s) NaN)) (cols df)\<rparr>
                 else df)"
  have "columns df1 = columns df"
    by (simp add: df1_def columns_def comp_def case_prod_unfold)
  moreover have "assign_series df c s =
      set_col df1 c (if map fst s = index df1 then map snd s else reindex s (index df1))"
    by (simp add: assign_series_def df1_def Let_def)
  ultimately show ?thesis
    by (simp only: columns_set_col_list)
qed

lemma fetched_Cons:
  "fetched fetch ((code, name) # ts) =
     (if fetch code \<noteq> None then name # fetched fetch ts else fetched fetch ts)"
  "failed fetch ((code, name) # ts) =
     (if fetch code = None then name # failed fetch ts else failed fetch ts)"
  by (simp_all add: fetched_def failed_def)

lemma fetched_Nil: "fetched fetch [] = []" "failed fetch [] = []"
  by (simp_all add: fetched_def failed_def)

lemma fetch_columns_result:
  assumes "distinct (map snd ts)" and "set (map snd ts) \<inter> set (columns df) = {}"
  shows "columns (fst (fetch_columns fetch ts (df, errs))) = columns df @ fetched fetch ts \<and>
         snd (fetch_columns fetch ts (df, errs)) = errs @ failed fetch ts"
  using assms
proof (induction ts arbitrary: df errs)
  case Nil
  then show ?case by (simp add: fetched_Nil)
next
  case (Cons p ts)
  obtain code name where p: "p = (code, name)" by (cases p)
  from Cons.prems p have d: "distinct (map snd ts)" and n: "name \<notin> set (map snd ts)"
    and fresh: "name \<notin> set (columns df)" and rest: "set (map snd ts) \<inter> set (columns df) = {}"
    by auto
  show ?case
  proof (cases "fetch code")
    case None
    with Cons.IH [OF d rest, of "errs @ [name]"] p show ?thesis
      by (simp add: fetched_Cons)
  next
    case (Some s)
    let ?df = "assign_series df name s"
    have c: "columns ?df = columns df @ [name]"
      using fresh by (simp add: columns_assign_series)
    then have "set (map snd ts) \<inter> set (columns ?df) = {}"
      using rest n by auto
    from Cons.IH [OF d this, of errs] Some p c show ?thesis
      by (simp add: fetched_Cons)
  qed
qed

lemma fetch_series_result:
  "map fst (fst (fetch_series fetch ts)) = fetched fetch ts \<and>
   snd (fetch_series fetch ts) = failed fetch ts"
proof (induction ts)
  case Nil
  then show ?case by (simp add: fetched_Nil)
next
  case (Cons p ts)
  obtain code name where p: "p = (code, name)" by (cases p)
  with Cons.IH show ?case
    by (cases "fetch code") (simp_all add: fetched_Cons case_prod_unfold Let_def)
qed

lemma fetched_member:
  assumes "distinct (map snd ts)" and "(code, name) \<in> set ts"
  shows "name \<in> set (fetched fetch ts) \<longleftrightarrow> fetch code \<noteq> None"
  using assms
proof (induction ts)
  case Nil
  then show ?case by simp
next
  case (Cons p ts)
  obtain code' name' where p: "p = (code', name')" by (cases p)
  have out: "name' \<notin> set (fetched fetch ts)"
    using Cons.prems(1) p by (auto simp: fetched_def)
  show ?case
  proof (cases "(code, name) = p")
    case True
    with p out show ?thesis by (auto simp: fetched_Cons)
  next
    case False
    with Cons.prems have in_ts: "(code, name) \<in> set ts" and d: "distinct (map snd ts)"
      by auto
    then have "name \<noteq> name'"
      using Cons.prems(1) p by force
    with Cons.IH [OF d in_ts] p show ?thesis by (auto simp: fetched_Cons)
  qed
qed

lemma columns_concat_axis1: "columns (concat_axis1 fs) = map fst fs"
  by (simp add: concat_axis1_def Let_def columns_def comp_def case_prod_unfold)

lemma columns_ffill: "columns (ffill df) = columns df"
  by (simp add: ffill_def columns_def comp_def case_prod_unfold)

lemma columns_take_rows: "columns (take_rows df ks) = columns df"
  by (simp add: take_rows_def columns_def comp_def case_prod_unfold)

lemma align_rates_anchor:
  assumes "US_10Y \<in> set (map fst fs)"
  shows "\<exists>df. align_rates fs = Inr df \<and> columns df = map fst fs"
proof -
  from assms have ne: "fs \<noteq> []" by auto
  have "has_col (ffill (concat_axis1 fs)) US_10Y"
    using assms by (simp add: has_col_def columns_ffill columns_concat_axis1)
  then obtain xs where "get_col (ffill (concat_axis1 fs)) US_10Y = Some xs"
    by (auto simp: has_col_get_col)
  with ne show ?thesis
    by (simp add: align_rates_def dropna_subset_def columns_take_rows columns_ffill
        columns_concat_axis1)
qed

lemma align_rates_no_anchor:
  assumes "US_10Y \<notin> set (map fst fs)"
  shows "align_rates fs = (if fs = [] then Inr empty_frame else Inl (KeyError US_10Y))"
proof -
  have "\<not> has_col (ffill (concat_axis1 fs)) US_10Y"
    using assms by (simp add: has_col_def columns_ffill columns_concat_axis1)
  then have "get_col (ffill (concat_axis1 fs)) US_10Y = None"
    by (simp add: has_col_get_col)
  then show ?thesis
    by (simp add: align_rates_def dropna_subset_def)
qed

lemma distinct_tickers:
  "distinct (map snd tickers_cpi)" "distinct (map snd tickers_cpi_v21)"
  "distinct (map snd tickers_rate_v2)" "distinct (map snd tickers_rate_v3)"
  by (simp_all add: tickers_cpi_def tickers_cpi_v21_def tickers_rate_v2_def
      tickers_rate_v3_def names_defs)

lemma get_macro_data_columns:
  "columns (fst (get_macro_data fetch)) = fetched fetch tickers_cpi"
  "snd (get_macro_data fetch) = failed fetch tickers_cpi"
  "columns (fst (get_macro_data_v21 fetch)) = fetched fetch tickers_cpi_v21"
  using fetch_columns_result [OF distinct_tickers(1), of empty_frame fetch "[]"]
    fetch_columns_result [OF distinct_tickers(2), of empty_frame fetch "[]"]
  by (simp_all add: get_macro_data_def get_macro_data_v21_def empty_frame_def columns_def)

lemma anchor_tickers:
  "(''CPIAUCSL'', CPI) \<in> set tickers_cpi" "(''CPIAUCSL'', CPI) \<in> set tickers_cpi_v21"
  "(''DGS10'', US_10Y) \<in> set tickers_rate_v2" "(''DGS10'', US_10Y) \<in> set tickers_rate_v3"
  by (simp_all add: tickers_cpi_def tickers_cpi_v21_def tickers_rate_v2_def
      tickers_rate_v3_def)

lemma get_rates_data_v2_result:
  "snd (get_rates_data_v2 fetch) = failed fetch tickers_rate_v2"
  "fst (get_rates_data_v2 fetch) = align_rates (fst (fetch_series fetch tickers_rate_v2))"
  using fetch_series_result [of fetch tickers_rate_v2]
  by (simp_all add: get_rates_data_v2_def case_prod_unfold)

lemma get_rates_data_v2_columns:
  assumes "fetch ''DGS10'' \<noteq> None"
  shows "\<exists>df. fst (get_rates_data_v2 fetch) = Inr df \<and>
              columns df = fetched fetch tickers_rate_v2"
proof -
  let ?fs = "fst (fetch_series fetch tickers_rate_v2)"
  have names: "map fst ?fs = fetched fetch tickers_rate_v2"
    using fetch_series_result by simp
  have "US_10Y \<in> set (fetched fetch tickers_rate_v2)"
    using fetched_member [OF distinct_tickers(3) anchor_tickers(3), of fetch] assms by simp
  then have "US_10Y \<in> set (map fst ?fs)" by (simp only: names)
  from align_rates_anchor [OF this] names show ?thesis
    by (simp add: get_rates_data_v2_result)
qed

lemma fetched_subset: "set (fetched fetch ts) \<subseteq> set (map snd ts)"
  by (auto simp: fetched_def)

lemma align_rates_columns:
  assumes "align_rates fs = Inr df"
  shows "set (columns df) \<subseteq> set (map fst fs)"
proof (cases "fs = []")
  case True
  with assms have "df = empty_frame" by (simp add: align_rates_def)
  then show ?thesis by (simp add: empty_frame_def columns_def)
next
  case False
  with assms have "dropna_subset (ffill (concat_axis1 fs)) US_10Y = Inr df"
    by (simp add: align_rates_def)
  then have "columns df = map fst fs"
    by (auto simp: dropna_subset_def columns_take_rows columns_ffill columns_concat_axis1
        split: option.splits)
  then show ?thesis by simp
qed

lemma columns_dropna_subset:
  "dropna_subset df a = Inr df' \<Longrightarrow> columns df' = columns df"
  by (auto simp: dropna_subset_def columns_take_rows split: option.splits)

lemma rates_fetch_tables:
  "fst (get_rates_data_v2 rates_fetch) = Inr rates_raw"
  "get_rates_data_v3 rates_fetch = Inr rates_raw_v3"
  by code_simp+

subsection \<open>Frame of process\_rates\_data\<close>

lemma v2_index: "index (process_rates_data_v2 df) = index df"
  by (simp add: process_rates_data_v2_def add_curve_frame add_net_liquidity_frame)

lemma v3_index: "index (process_rates_data_v3 pad df) = index df"
  by (simp add: process_rates_data_v3_def add_curve_frame add_net_liquidity_frame
      add_liquidity_stress_frame add_supercore_yoy_frame add_bank_reserves_frame)

lemma v2_get: "c \<notin> derived_v2 \<Longrightarrow> get_col (process_rates_data_v2 df) c = get_col df c"
  by (simp add: derived_v2_def process_rates_data_v2_def add_curve_frame add_net_liquidity_frame)

lemma v3_get: "c \<notin> derived_v3 \<Longrightarrow> get_col (process_rates_data_v3 pad df) c = get_col df c"
  by (simp add: derived_v3_def process_rates_data_v3_def add_curve_frame add_net_liquidity_frame
      add_liquidity_stress_frame add_supercore_yoy_frame add_bank_reserves_frame)

lemma v2_cols: "set (columns (process_rates_data_v2 df)) \<subseteq> set (columns df) \<union> derived_v2"
proof
  fix c assume "c \<in> set (columns (process_rates_data_v2 df))"
  then have "has_col (add_curve (add_net_liquidity df)) c"
    by (simp add: has_col_def process_rates_data_v2_def)
  then have "c = CURVE \<or> c = NET_LIQ \<or> has_col df c"
    using add_curve_frame(3) add_net_liquidity_frame(3) by blast
  then show "c \<in> set (columns df) \<union> derived_v2"
    by (auto simp: derived_v2_def has_col_def)
qed

lemma v3_cols: "set (columns (process_rates_data_v3 pad df)) \<subseteq> set (columns df) \<union> derived_v3"
proof
  fix c assume "c \<in> set (columns (process_rates_data_v3 pad df))"
  then have "has_col (add_curve (add_bank_reserves (add_supercore_yoy pad
       (add_liquidity_stress (add_net_liquidity df))))) c"
    by (simp add: has_col_def process_rates_data_v3_def)
  then have "c = CURVE \<or> c = BANK_RES_T \<or> c = SUPERCORE_YOY \<or> c = LIQ_STRESS \<or> c = NET_LIQ \<or> has_col df c"
    using add_curve_frame(3) add_net_liquidity_frame(3) add_bank_reserves_frame(3)
      add_supercore_yoy_frame(3) add_liquidity_stress_frame(3) by blast
  then show "c \<in> set (columns df) \<union> derived_v3"
    by (auto simp: derived_v3_def has_col_def)
qed

lemma filter_update_other:
  "k \<notin> S \<Longrightarrow>
   filter (\<lambda>(c, x). c \<in> S) (AList.update k v al) = filter (\<lambda>(c, x). c \<in> S) al"
  by (induction al) auto

lemma restrict_set_col:
  "c \<notin> set cs \<Longrightarrow> restrict (set_col df c vs) cs = restrict df cs"
  by (simp add: restrict_def set_col_def filter_update_other)

lemma restrict_self: "restrict df (columns df) = df"
proof -
  have "filter (\<lambda>(c, xs). c \<in> set (columns df)) (cols df) = cols df"
    by (rule filter_True) (force simp: columns_def)
  then show ?thesis by (simp add: restrict_def)
qed

lemma restrict_add:
  "NET_LIQ \<notin> set cs \<Longrightarrow> restrict (add_net_liquidity df) cs = restrict df cs"
  "NET_LIQ \<notin> set cs \<Longrightarrow> restrict (add_net_liquidity_v1 df) cs = restrict df cs"
  "CURVE \<notin> set cs \<Longrightarrow> restrict (add_curve df) cs = restrict df cs"
  "LIQ_STRESS \<notin> set cs \<Longrightarrow> restrict (add_liquidity_stress df) cs = restrict df cs"
  "SUPERCORE_YOY \<notin> set cs \<Longrightarrow> restrict (add_supercore_yoy pad df) cs = restrict df cs"
  "BANK_RES_T \<notin> set cs \<Longrightarrow> restrict (add_bank_reserves df) cs = restrict df cs"
  by (auto simp: add_net_liquidity_def add_net_liquidity_v1_def add_curve_def
      add_liquidity_stress_def add_supercore_yoy_def add_bank_reserves_def set_scalar_def
      restrict_set_col Let_def split: option.splits)

lemma restrict_v2:
  assumes "set cs \<inter> derived_v2 = {}"
  shows "restrict (process_rates_data_v2 df) cs = restrict df cs"
  using assms by (simp add: process_rates_data_v2_def derived_v2_def restrict_add)

lemma restrict_v3:
  assumes "set cs \<inter> derived_v3 = {}"
  shows "restrict (process_rates_data_v3 pad df) cs = restrict df cs"
  using assms by (simp add: process_rates_data_v3_def derived_v3_def restrict_add)

lemma ticker_names_not_derived:
  "set (map snd tickers_rate_v2) \<inter> derived_v2 = {}"
  "set (map snd tickers_rate_v3) \<inter> derived_v3 = {}"
  by (simp_all add: tickers_rate_v2_def tickers_rate_v3_def derived_v2_def derived_v3_def
      names_defs)

lemma get_rates_data_v2_names:
  assumes "fst (get_rates_data_v2 fetch) = Inr raw"
  shows "set (columns raw) \<inter> derived_v2 = {}"
proof -
  have "set (columns raw) \<subseteq> set (map fst (fst (fetch_series fetch tickers_rate_v2)))"
    using assms by (intro align_rates_columns) (simp add: get_rates_data_v2_result)
  also have "\<dots> \<subseteq> set (map snd tickers_rate_v2)"
    using fetch_series_result [of fetch tickers_rate_v2] fetched_subset by metis
  finally show ?thesis using ticker_names_not_derived(1) by blast
qed

lemma get_rates_data_v3_names:
  assumes "get_rates_data_v3 fetch = Inr raw"
  shows "set (columns raw) \<inter> derived_v3 = {}"
proof -
  have "set (columns raw) \<subseteq> set (map fst (fst (fetch_series fetch tickers_rate_v3)))"
    using assms by (intro align_rates_columns) (simp add: get_rates_data_v3_def)
  also have "\<dots> \<subseteq> set (map snd tickers_rate_v3)"
    using fetch_series_result [of fetch tickers_rate_v3] fetched_subset by metis
  finally show ?thesis using ticker_names_not_derived(2) by blast
qed

text \<open>
  C10. \<open>process_rates_data\<close> of v2 and v3 keeps the date index, adds no column but
  the derived ones, and returns every column whose name is not a derived name as it
  received it. The tables it receives come from \<open>get_rates_data\<close>, whose columns bear
  names of the ticker table and none of the derived names: cut down to the columns of
  such an input, the output is the input, index and cells.
\<close>

theorem process_rates_data_frame_effect:
  "index (process_rates_data_v2 df) = index df \<and>
   index (process_rates_data_v3 pad df) = index df \<and>
   set (columns (process_rates_data_v2 df)) \<subseteq> set (columns df) \<union> derived_v2 \<and>
   set (columns (process_rates_data_v3 pad df)) \<subseteq> set (columns df) \<union> derived_v3 \<and>
   (c \<notin> derived_v2 \<longrightarrow> get_col (process_rates_data_v2 df) c = get_col df c) \<and>
   (c \<notin> derived_v3 \<longrightarrow> get_col (process_rates_data_v3 pad df) c = get_col df c) \<and>
   (fst (get_rates_data_v2 fetch) = Inr raw \<longrightarrow>
      restrict (process_rates_data_v2 raw) (columns raw) = raw) \<and>
   (get_rates_data_v3 fetch = Inr raw3 \<longrightarrow>
      restrict (process_rates_data_v3 pad raw3) (columns raw3) = raw3)"
proof -
  have a: "restrict (process_rates_data_v2 raw) (columns raw) = raw"
    if "fst (get_rates_data_v2 fetch) = Inr raw"
    using get_rates_data_v2_names [OF that] by (simp add: restrict_v2 restrict_self)
  have b: "restrict (process_rates_data_v3 pad raw3) (columns raw3) = raw3"
    if "get_rates_data_v3 fetch = Inr raw3"
    using get_rates_data_v3_names [OF that] by (simp add: restrict_v3 restrict_self)
  from a b show ?thesis
    using v2_index v3_index v2_cols v3_cols v2_get v3_get by blast
qed

theorem process_rates_data_frame_effect_witness:
  "TGA \<notin> derived_v2 \<and> TGA \<notin> derived_v3 \<and>
   get_col (process_rates_data_v2 unit_example) TGA = Some [Num 650000, Num 700000] \<and>
   get_col (process_rates_data_v3 True unit_example) TGA = Some [Num 650000, Num 700000] \<and>
   fst (get_rates_data_v2 rates_fetch) = Inr rates_raw \<and>
   get_rates_data_v3 rates_fetch = Inr rates_raw_v3 \<and>
   restrict (process_rates_data_v2 rates_raw) [US_10Y, US_2Y] = rates_raw \<and>
   restrict (process_rates_data_v3 True rates_raw_v3) [US_10Y, US_2Y, SUPERCORE_IDX] =
     rates_raw_v3"
proof -
  have c: "columns rates_raw = [US_10Y, US_2Y]"
    "columns rates_raw_v3 = [US_10Y, US_2Y, SUPERCORE_IDX]"
    by (simp_all add: columns_def rates_raw_def rates_raw_v3_def)
  show ?thesis
    using process_rates_data_frame_effect [where df = unit_example and pad = True and c = TGA
        and fetch = rates_fetch and raw = rates_raw and ?raw3.0 = rates_raw_v3]
      rates_fetch_tables c
    by (simp add: derived_v2_def derived_v3_def names_defs unit_example_def get_col_def)
qed

subsection \<open>Rows kept by the pipelines\<close>

lemma rows_empty_frame: "rows empty_frame = []"
  by (simp add: rows_def empty_frame_def)

lemma concat_axis1_Nil: "concat_axis1 [] = empty_frame"
  by (simp add: concat_axis1_def empty_frame_def)

lemma ffill_empty: "ffill empty_frame = empty_frame"
  by (simp add: ffill_def empty_frame_def)

lemma rows_align_rates:
  assumes "align_rates fs = Inr df"
  shows "rows df = filter (\<lambda>r. has_value r US_10Y) (rows (ffill (concat_axis1 fs)))"
proof (cases "fs = []")
  case True
  with assms have "df = empty_frame" by (simp add: align_rates_def)
  with True show ?thesis
    by (simp add: concat_axis1_Nil ffill_empty rows_empty_frame)
next
  case False
  with assms show ?thesis
    by (simp add: align_rates_def rows_dropna_subset)
qed

lemma rows_process_v1:
  assumes "process_rates_data_v1 raw = Inr out" and "set (columns raw) \<inter> derived_v2 = {}"
  shows "rows (restrict out (columns raw)) =
           filter (\<lambda>r. has_value r US_10Y) (rows (ffill raw))"
proof -
  from assms(1) obtain df' where d: "dropna_subset (ffill raw) US_10Y = Inr df'"
    and o: "out = add_curve (add_net_liquidity_v1 df')"
    by (auto simp: process_rates_data_v1_def split: sum.splits)
  have c: "columns df' = columns raw"
    using columns_dropna_subset [OF d] by (simp add: columns_ffill)
  have "restrict out (columns raw) = restrict df' (columns raw)"
    using assms(2) by (simp add: o restrict_add derived_v2_def)
  also have "\<dots> = df'"
    using restrict_self [of df'] by (simp add: c)
  finally show ?thesis
    using rows_dropna_subset [OF d] by simp
qed

lemma main_cpi_v21_raw:
  assumes "map_sum id fst (main_cpi_v21 pad fetch) = Inr raw_df"
  shows "dropna_subset (fst (get_macro_data_v21 fetch)) CPI = Inr raw_df"
  using assms
  by (auto simp: main_cpi_v21_def case_prod_unfold Let_def split: if_splits sum.splits)

lemma has_col_mul_pct:
  "has_col (mul_frame (pct_change_frame pad n df) k) c = has_col df c"
  by (simp add: has_col_def columns_def mul_frame_def pct_change_frame_def comp_def
      case_prod_unfold)

lemma process_data_has_col:
  assumes "has_col (fst (snd (process_data pad df))) c"
  shows "has_col df c"
  using assms
  by (auto simp: process_data_def Let_def frame_simps has_col_mul_pct has_col_get_col [of df]
      split: option.splits)

lemma main_cpi_raw:
  assumes "map_sum id fst (main_cpi pad fetch) = Inr raw_df"
  shows "raw_df = dropna (fst (get_macro_data fetch))"
    and "has_col (fst (get_macro_data fetch)) CPI"
proof -
  let ?raw = "dropna (fst (get_macro_data fetch))"
  let ?yoy = "fst (snd (process_data pad ?raw))"
  from assms have r: "raw_df = ?raw" and "\<exists>sp. calculate_spread ?yoy = Inr sp"
    by (auto simp: main_cpi_def case_prod_unfold Let_def split: if_splits sum.splits)
  then have "has_col ?yoy CPI"
    by (auto simp: calculate_spread_def has_col_get_col split: option.splits)
  then have "has_col ?raw CPI" by (rule process_data_has_col)
  then show "has_col (fst (get_macro_data fetch)) CPI"
    by (simp add: dropna_def has_col_take_rows)
  from r show "raw_df = ?raw" .
qed

text \<open>
  C5. The tables of the rate agents are forward-filled column by column. What
  \<open>get_rates_data\<close> of v2 and v3 returns are the rows with a 10-year yield of the
  joined table in which every cell holds the most recent value of its column that is
  not missing at that date or before, and stays missing when there is none; the first
  rate agent fills the table it is given in the same way at the start of
  \<open>process_rates_data\<close>, before it drops rows and adds its derived columns. The last
  two parts say what that value is. With a 2-year yield observed at dates 0 and 3
  only, dates 1 and 2 hold the value of date 0.
\<close>

theorem forward_fill:
  "(fst (get_rates_data_v2 fetch) = Inr df \<longrightarrow>
      rows df =
        filter (\<lambda>r. has_value r US_10Y)
          (rows (spec_ffill (concat_axis1 (fst (fetch_series fetch tickers_rate_v2)))))) \<and>
   (get_rates_data_v3 fetch = Inr df3 \<longrightarrow>
      rows df3 =
        filter (\<lambda>r. has_value r US_10Y)
          (rows (spec_ffill (concat_axis1 (fst (fetch_series fetch tickers_rate_v3)))))) \<and>
   (process_rates_data_v1 raw = Inr out \<and> set (columns raw) \<inter> derived_v2 = {} \<longrightarrow>
      rows (restrict out (columns raw)) =
        filter (\<lambda>r. has_value r US_10Y) (rows (spec_ffill raw))) \<and>
   (i < length xs \<and> (\<forall>j\<le>i. isna (xs ! j)) \<longrightarrow> last_valid xs i = NaN) \<and>
   (i < length xs \<and> j \<le> i \<and> \<not> isna (xs ! j) \<and> (\<forall>k. j < k \<and> k \<le> i \<longrightarrow> isna (xs ! k)) \<longrightarrow>
      last_valid xs i = xs ! j)"
proof -
  have a: "rows df = filter (\<lambda>r. has_value r US_10Y)
          (rows (spec_ffill (concat_axis1 (fst (fetch_series fetch tickers_rate_v2)))))"
    if "fst (get_rates_data_v2 fetch) = Inr df"
    unfolding ffill_spec [symmetric]
    using that by (intro rows_align_rates) (simp add: get_rates_data_v2_result)
  have b: "rows df3 = filter (\<lambda>r. has_value r US_10Y)
          (rows (spec_ffill (concat_axis1 (fst (fetch_series fetch tickers_rate_v3)))))"
    if "get_rates_data_v3 fetch = Inr df3"
    unfolding ffill_spec [symmetric]
    using that by (intro rows_align_rates) (simp add: get_rates_data_v3_def)
  have c: "rows (restrict out (columns raw)) =
        filter (\<lambda>r. has_value r US_10Y) (rows (spec_ffill raw))"
    if "process_rates_data_v1 raw = Inr out" "set (columns raw) \<inter> derived_v2 = {}"
    unfolding ffill_spec [symmetric] using that by (rule rows_process_v1)
  have d: "i < length xs \<and> (\<forall>j\<le>i. isna (xs ! j)) \<longrightarrow> last_valid xs i = NaN"
    using last_valid_none [of i xs] by simp
  have e: "i < length xs \<and> j \<le> i \<and> \<not> isna (xs ! j) \<and>
      (\<forall>k. j < k \<and> k \<le> i \<longrightarrow> isna (xs ! k)) \<longrightarrow> last_valid xs i = xs ! j"
    using last_valid_some [of i xs j] by simp
  show ?thesis
    apply (intro conjI impI)
    subgoal by (rule a)
    subgoal by (rule b)
    subgoal using c by simp
    subgoal using d by simp
    subgoal using e by simp
    done
qed

theorem forward_fill_witness:
  "fst (get_rates_data_v2 rates_fetch) = Inr rates_raw \<and>
   get_col rates_raw US_2Y = Some [Num 3, Num 3, Num 3, Num 2] \<and>
   rows rates_raw =
     filter (\<lambda>r. has_value r US_10Y)
       (rows (spec_ffill (concat_axis1 (fst (fetch_series rates_fetch tickers_rate_v2))))) \<and>
   get_rates_data_v3 rates_fetch = Inr rates_raw_v3 \<and>
   rows rates_raw_v3 =
     filter (\<lambda>r. has_value r US_10Y)
       (rows (spec_ffill (concat_axis1 (fst (fetch_series rates_fetch tickers_rate_v3))))) \<and>
   process_rates_data_v1 v1_raw = Inr v1_out \<and>
   rows (restrict v1_out [US_10Y, US_2Y]) =
     filter (\<lambda>r. has_value r US_10Y) (rows (spec_ffill v1_raw)) \<and>
   last_valid [NaN, Num 1] 0 = NaN \<and>
   last_valid [Num 3, NaN, NaN, Num 2] 1 = Num 3 \<and>
   last_valid [Num 3, NaN, NaN, Num 2] 2 = Num 3"
proof -
  let ?xs = "[Num 3, NaN, NaN, Num 2]"
  have v1: "process_rates_data_v1 v1_raw = Inr v1_out"
    by code_simp
  have c: "columns v1_raw = [US_10Y, US_2Y]" "set (columns v1_raw) \<inter> derived_v2 = {}"
    by (simp_all add: columns_def v1_raw_def derived_v2_def names_defs)
  have g: "get_col rates_raw US_2Y = Some [Num 3, Num 3, Num 3, Num 2]"
    by (simp add: rates_raw_def get_col_def names_defs)
  have none: "(0::nat) < length [NaN, Num 1] \<and> (\<forall>j\<le>0. isna ([NaN, Num 1] ! j))"
    by (simp add: isna_def)
  have gap: "i < length ?xs \<and> 0 \<le> i \<and> \<not> isna (?xs ! 0) \<and>
      (\<forall>k. 0 < k \<and> k \<le> i \<longrightarrow> isna (?xs ! k))" if "i \<le> 2" for i
  proof -
    have "isna (?xs ! k)" if "0 < k" "k \<le> 2" for k
    proof -
      from that have "k = 1 \<or> k = 2" by arith
      then show ?thesis by (auto simp: isna_def)
    qed
    with that show ?thesis by (auto simp: isna_def)
  qed
  have l0: "last_valid [NaN, Num 1] 0 = NaN"
  proof -
    note forward_fill [where i = 0 and xs = "[NaN, Num 1]", THEN conjunct2,
        THEN conjunct2, THEN conjunct2, THEN conjunct1]
    then show ?thesis using none by (rule mp)
  qed
  have l: "last_valid ?xs i = Num 3" if "i \<le> 2" for i
  proof -
    note forward_fill [where i = i and xs = ?xs and j = 0, THEN conjunct2,
        THEN conjunct2, THEN conjunct2, THEN conjunct2]
    then have "last_valid ?xs i = ?xs ! 0" using gap [OF that] by (rule mp)
    then show ?thesis by simp
  qed
  have l1: "last_valid ?xs 1 = Num 3" and l2: "last_valid ?xs 2 = Num 3"
    using l [of 1] l [of 2] by simp_all
  show ?thesis
    using forward_fill [where fetch = rates_fetch and df = rates_raw
        and ?df3.0 = rates_raw_v3 and raw = v1_raw and out = v1_out]
      rates_fetch_tables v1 c g l0 l1 l2
    by simp
qed

text \<open>
  C6 as the code has it. The rate agents drop, after the forward fill, exactly the
  rows without a value in \<open>'US 10Y Yield'\<close>: v2 and v3 in \<open>get_rates_data\<close>, the first
  one in \<open>process_rates_data\<close>. cpi\_agent\_v2.1.py drops from the raw table, which it
  does not fill, exactly the rows without a value in \<open>'CPI (Headline)'\<close>. cpi\_agent.py
  calls \<open>dropna()\<close>, which keeps exactly the rows with a value in every column: each
  of them has a headline CPI, but a row with a headline CPI and a gap elsewhere is
  dropped.
\<close>

theorem anchor_rows:
  "(fst (get_rates_data_v2 fetch) = Inr df \<longrightarrow>
      rows df =
        filter (\<lambda>r. has_value r US_10Y)
          (rows (ffill (concat_axis1 (fst (fetch_series fetch tickers_rate_v2)))))) \<and>
   (get_rates_data_v3 fetch = Inr df3 \<longrightarrow>
      rows df3 =
        filter (\<lambda>r. has_value r US_10Y)
          (rows (ffill (concat_axis1 (fst (fetch_series fetch tickers_rate_v3)))))) \<and>
   (process_rates_data_v1 raw = Inr out \<and> set (columns raw) \<inter> derived_v2 = {} \<longrightarrow>
      rows (restrict out (columns raw)) =
        filter (\<lambda>r. has_value r US_10Y) (rows (ffill raw))) \<and>
   (map_sum id fst (main_cpi_v21 pad fetch) = Inr raw21 \<longrightarrow>
      rows raw21 =
        filter (\<lambda>r. has_value r CPI) (rows (fst (get_macro_data_v21 fetch)))) \<and>
   (map_sum id fst (main_cpi pad fetch) = Inr raw1 \<longrightarrow>
      rows raw1 = filter complete (rows (fst (get_macro_data fetch))) \<and>
      (\<forall>r \<in> set (rows raw1). has_value r CPI))"
proof -
  have a: "rows df = filter (\<lambda>r. has_value r US_10Y)
          (rows (ffill (concat_axis1 (fst (fetch_series fetch tickers_rate_v2)))))"
    if "fst (get_rates_data_v2 fetch) = Inr df"
    using that by (intro rows_align_rates) (simp add: get_rates_data_v2_result)
  have b: "rows df3 = filter (\<lambda>r. has_value r US_10Y)
          (rows (ffill (concat_axis1 (fst (fetch_series fetch tickers_rate_v3)))))"
    if "get_rates_data_v3 fetch = Inr df3"
    using that by (intro rows_align_rates) (simp add: get_rates_data_v3_def)
  have d: "rows raw21 = filter (\<lambda>r. has_value r CPI) (rows (fst (get_macro_data_v21 fetch)))"
    if "map_sum id fst (main_cpi_v21 pad fetch) = Inr raw21"
    using main_cpi_v21_raw [OF that] by (rule rows_dropna_subset)
  have e: "rows raw1 = filter complete (rows (fst (get_macro_data fetch))) \<and>
      (\<forall>r \<in> set (rows raw1). has_value r CPI)"
    if "map_sum id fst (main_cpi pad fetch) = Inr raw1"
    using main_cpi_raw [OF that] dropna_rows_have_anchor [of "fst (get_macro_data fetch)" CPI]
    by (simp add: rows_dropna)
  from a b d e rows_process_v1 [of raw out] show ?thesis by blast
qed

theorem anchor_rows_witness:
  "fst (get_rates_data_v2 rates_fetch) = Inr rates_raw \<and>
   rows rates_raw =
     filter (\<lambda>r. has_value r US_10Y)
       (rows (ffill (concat_axis1 (fst (fetch_series rates_fetch tickers_rate_v2))))) \<and>
   get_rates_data_v3 rates_fetch = Inr rates_raw_v3 \<and>
   rows rates_raw_v3 =
     filter (\<lambda>r. has_value r US_10Y)
       (rows (ffill (concat_axis1 (fst (fetch_series rates_fetch tickers_rate_v3))))) \<and>
   process_rates_data_v1 v1_raw = Inr v1_out \<and>
   rows (restrict v1_out [US_10Y, US_2Y]) =
     filter (\<lambda>r. has_value r US_10Y) (rows (ffill v1_raw)) \<and>
   map_sum id fst (main_cpi_v21 True anchor_fetch) = Inr anchor_kept \<and>
   rows anchor_kept =
     filter (\<lambda>r. has_value r CPI) (rows (fst (get_macro_data_v21 anchor_fetch))) \<and>
   map_sum id fst (main_cpi True gap_fetch) = Inr gap_kept \<and>
   rows gap_kept = filter complete (rows (fst (get_macro_data gap_fetch))) \<and>
   list_all (\<lambda>r. has_value r CPI) (rows gap_kept)"
proof -
  have v1: "process_rates_data_v1 v1_raw = Inr v1_out"
    by code_simp
  have c: "columns v1_raw = [US_10Y, US_2Y]" "set (columns v1_raw) \<inter> derived_v2 = {}"
    by (simp_all add: columns_def v1_raw_def derived_v2_def names_defs)
  have m21: "map_sum id fst (main_cpi_v21 True anchor_fetch) = Inr anchor_kept"
    by code_simp
  have m1: "map_sum id fst (main_cpi True gap_fetch) = Inr gap_kept"
    by code_simp
  show ?thesis
    using anchor_rows [where fetch = rates_fetch and df = rates_raw and ?df3.0 = rates_raw_v3
        and raw = v1_raw and out = v1_out]
      anchor_rows [where fetch = anchor_fetch and pad = True and ?raw21.0 = anchor_kept]
      anchor_rows [where fetch = gap_fetch and pad = True and ?raw1.0 = gap_kept]
      rates_fetch_tables v1 c m21 m1
    by (simp add: list_all_iff)
qed

text \<open>
  C6 as stated fails in cpi\_agent.py: the row of date 1 has a headline CPI and no PPI,
  and the raw table of the render cycle has lost it.
\<close>

theorem dropna_drops_row_with_anchor:
  "fst (get_macro_data gap_fetch) = gap_raw \<and>
   has_value (row_at gap_raw 1) CPI \<and>
   map_sum id fst (main_cpi True gap_fetch) = Inr gap_kept \<and>
   rows gap_kept = [row_at gap_raw 0, row_at gap_raw 2]"
  by code_simp

subsection \<open>Year-over-year change\<close>

lemma length_shift: "length (shift n xs) = length xs"
  by (simp add: shift_def)

lemma nth_shift:
  "t < length xs \<Longrightarrow> shift n xs ! t = (if t < n then NaN else xs ! (t - n))"
  by (auto simp: shift_def nth_append min_def)

lemma length_ffill_col: "length (ffill_col xs) = length xs"
  by (simp add: ffill_col_def length_ffill_from)

lemma ffill_col_nth_present:
  "t < length xs \<Longrightarrow> \<not> isna (xs ! t) \<Longrightarrow> ffill_col xs ! t = xs ! t"
  unfolding ffill_col_def by (rule ffill_from_nth_some) auto

lemma length_pct_change: "length (pct_change pad n xs) = length xs"
  by (simp add: pct_change_def Let_def length_shift length_ffill_col)

lemma nth_pct_change:
  assumes "t < length xs" and "n \<le> t"
    and "\<not> isna (xs ! t)" and "\<not> isna (xs ! (t - n))"
  shows "pct_change pad n xs ! t = fsub (fdiv (xs ! t) (xs ! (t - n))) (Num 1)"
proof -
  define d where "d = (if pad then ffill_col xs else xs)"
  have len: "length d = length xs"
    by (simp add: d_def length_ffill_col)
  have dt: "d ! t = xs ! t"
    using assms(1,3) by (simp add: d_def ffill_col_nth_present)
  have dn: "d ! (t - n) = xs ! (t - n)"
    using assms(1,4) by (simp add: d_def ffill_col_nth_present)
  have "pct_change pad n xs ! t = fsub (fdiv (d ! t) (shift n d ! t)) (Num 1)"
    using assms(1) len by (simp add: pct_change_def d_def [symmetric] length_shift)
  also have "shift n d ! t = d ! (t - n)"
    using assms(1,2) len by (simp add: nth_shift)
  finally show ?thesis by (simp add: dt dn)
qed

lemma nth_pct_change_early:
  assumes "t < length xs" and "t < n"
  shows "pct_change pad n xs ! t = NaN"
proof -
  define d where "d = (if pad then ffill_col xs else xs)"
  have len: "length d = length xs"
    by (simp add: d_def length_ffill_col)
  have "pct_change pad n xs ! t = fsub (fdiv (d ! t) (shift n d ! t)) (Num 1)"
    using assms(1) len by (simp add: pct_change_def d_def [symmetric] length_shift)
  also have "shift n d ! t = NaN"
    using assms len by (simp add: nth_shift)
  finally show ?thesis by (cases "d ! t") simp_all
qed

lemma nth_yoy:
  assumes "t < length xs" and "n \<le> t"
    and "\<not> isna (xs ! t)" and "\<not> isna (xs ! (t - n))"
  shows "col_mul (pct_change pad n xs) 100 ! t =
           fmul (fsub (fdiv (xs ! t) (xs ! (t - n))) (Num 1)) (Num 100)"
  using assms by (simp add: col_mul_def length_pct_change nth_pct_change)

lemma wf_frame_length:
  "wf_frame df \<Longrightarrow> get_col df c = Some xs \<Longrightarrow> length xs = length (index df)"
  by (auto simp: wf_frame_def get_col_def list_all_iff dest!: map_of_SomeD)

lemma assign_aligned:
  assumes "length ys = length (index df)" and "aligned df out"
  shows "assign_series out c (as_series df ys) =
           \<lparr>index = index df, cols = AList.update c ys (cols out)\<rparr>"
proof -
  let ?s = "as_series df ys"
  have fst: "map fst ?s = index df" and snd: "map snd ?s = ys"
    using assms(1) by (simp_all add: as_series_def)
  have nil: "?s = [] \<longleftrightarrow> index df = []"
    using assms(1) by (cases "index df"; cases ys) (simp_all add: as_series_def)
  show ?thesis
  proof (cases "index out = [] \<and> ?s \<noteq> []")
    case True
    with assms(2) nil have "cols out = []"
      by (auto simp: aligned_def)
    with True show ?thesis
      by (simp add: assign_series_def Let_def fst snd set_col_def)
  next
    case False
    with assms(2) nil have io: "index out = index df"
      by (auto simp: aligned_def)
    show ?thesis
      by (simp add: assign_series_def Let_def fst snd set_col_def io nil)
  qed
qed

lemma yoy_index_cols_get:
  assumes "wf_frame df" and "aligned df out"
  shows "aligned df (yoy_index_cols pad df cs out) \<and>
         get_col (yoy_index_cols pad df cs out) c =
           (if c \<in> set cs \<and> has_col df c
            then map_option (\<lambda>xs. col_mul (pct_change pad 12 xs) 100) (get_col df c)
            else get_col out c)"
  using assms(2)
proof (induction cs arbitrary: out)
  case Nil
  then show ?case by simp
next
  case (Cons col rest)
  show ?case
  proof (cases "get_col df col")
    case None
    then have "\<not> has_col df col" by (simp add: has_col_get_col)
    with None Cons.IH [OF Cons.prems] show ?thesis by auto
  next
    case (Some xs)
    let ?ys = "col_mul (pct_change pad 12 xs) 100"
    let ?out = "\<lparr>index = index df, cols = AList.update col ?ys (cols out)\<rparr>"
    have len: "length ?ys = length (index df)"
      using wf_frame_length [OF assms(1) Some] by (simp add: col_mul_def length_pct_change)
    have step: "assign_series out col (as_series df ?ys) = ?out"
      using len Cons.prems by (rule assign_aligned)
    have al: "aligned df ?out" by (simp add: aligned_def)
    have g: "get_col ?out c = (if c = col then Some ?ys else get_col out c)"
      by (simp add: get_col_def update_conv')
    have h: "has_col df col" using Some by (simp add: has_col_get_col)
    from Cons.IH [OF al] Some step g h show ?thesis by auto
  qed
qed

lemma copy_rate_cols_get:
  assumes "wf_frame df" and "aligned df out"
  shows "aligned df (copy_rate_cols df cs out) \<and>
         get_col (copy_rate_cols df cs out) c =
           (if c \<in> set cs \<and> has_col df c then get_col df c else get_col out c)"
  using assms(2)
proof (induction cs arbitrary: out)
  case Nil
  then show ?case by simp
next
  case (Cons col rest)
  show ?case
  proof (cases "get_col df col")
    case None
    then have "\<not> has_col df col" by (simp add: has_col_get_col)
    with None Cons.IH [OF Cons.prems] show ?thesis by auto
  next
    case (Some xs)
    let ?out = "\<lparr>index = index df, cols = AList.update col xs (cols out)\<rparr>"
    have step: "assign_series out col (as_series df xs) = ?out"
      using wf_frame_length [OF assms(1) Some] Cons.prems by (rule assign_aligned)
    have al: "aligned df ?out" by (simp add: aligned_def)
    have g: "get_col ?out c = (if c = col then Some xs else get_col out c)"
      by (simp add: get_col_def update_conv')
    have h: "has_col df col" using Some by (simp add: has_col_get_col)
    from Cons.IH [OF al] Some step g h show ?thesis by auto
  qed
qed

lemma add_profit_spread_get:
  "c \<noteq> PROFIT_SPREAD \<Longrightarrow> get_col (add_profit_spread df) c = get_col df c"
  by (auto simp: add_profit_spread_def frame_simps split: option.splits)

lemma aligned_empty: "aligned df empty_frame"
  by (simp add: aligned_def empty_frame_def)

lemma v21_index_col:
  assumes "wf_frame df" and "col \<in> set index_cols" and "get_col df col = Some xs"
  shows "get_col (snd (process_data_v21 pad df)) col =
           Some (col_mul (pct_change pad 12 xs) 100)"
proof -
  let ?a = "yoy_index_cols pad df index_cols empty_frame"
  have a: "aligned df ?a"
    and ga: "get_col ?a col = Some (col_mul (pct_change pad 12 xs) 100)"
    using yoy_index_cols_get [OF assms(1) aligned_empty, of pad index_cols col] assms(2,3)
    by (simp_all add: has_col_get_col)
  have notrate: "col \<notin> set rate_cols" and notps: "col \<noteq> PROFIT_SPREAD"
    using assms(2) by (auto simp: index_cols_def rate_cols_def names_defs)
  have "get_col (copy_rate_cols df rate_cols ?a) col = get_col ?a col"
    using copy_rate_cols_get [OF assms(1) a, of rate_cols col] notrate by simp
  with ga notps show ?thesis
    by (simp add: process_data_v21_def add_profit_spread_get)
qed

lemma v21_rate_col:
  assumes "wf_frame df" and "col \<in> set rate_cols" and "get_col df col = Some xs"
  shows "get_col (snd (process_data_v21 pad df)) col = Some xs"
proof -
  let ?a = "yoy_index_cols pad df index_cols empty_frame"
  have a: "aligned df ?a"
    using yoy_index_cols_get [OF assms(1) aligned_empty, of pad index_cols col] by simp
  have notps: "col \<noteq> PROFIT_SPREAD"
    using assms(2) by (auto simp: rate_cols_def names_defs)
  have "get_col (copy_rate_cols df rate_cols ?a) col = Some xs"
    using copy_rate_cols_get [OF assms(1) a, of rate_cols col] assms(2,3)
    by (simp add: has_col_get_col)
  with notps show ?thesis
    by (simp add: process_data_v21_def add_profit_spread_get)
qed

lemma v3_supercore_yoy:
  assumes "get_col df SUPERCORE_IDX = Some xs"
  shows "get_col (process_rates_data_v3 pad df) SUPERCORE_YOY =
           Some (col_mul (pct_change pad 252 xs) 100)"
proof -
  let ?d = "add_liquidity_stress (add_net_liquidity df)"
  have "get_col ?d SUPERCORE_IDX = Some xs"
    using assms by (simp add: add_liquidity_stress_frame add_net_liquidity_frame names_defs)
  then have "get_col (add_supercore_yoy pad ?d) SUPERCORE_YOY =
      Some (col_mul (pct_change pad 252 xs) 100)"
    by (simp add: add_supercore_yoy_def frame_simps)
  then show ?thesis
    by (simp add: process_rates_data_v3_def add_curve_frame add_bank_reserves_frame names_defs)
qed

lemma length_yoy: "length (col_mul (pct_change pad n xs) 100) = length xs"
  by (simp add: col_mul_def length_pct_change)

text \<open>
  In a column with no gap from its first observation \<open>f\<close> on, every row at least \<open>n\<close>
  rows after \<open>f\<close> has a value, and so has the row \<open>n\<close> rows before it.
\<close>

lemma after_first_observation:
  assumes "\<forall>k. f \<le> k \<and> k < length xs \<longrightarrow> \<not> isna (xs ! k)"
    and "f + n \<le> t" and "t < length xs"
  shows "n \<le> t \<and> \<not> isna (xs ! t) \<and> \<not> isna (xs ! (t - n))"
proof -
  from assms(2,3) have "f \<le> t" "f \<le> t - n" "t - n < length xs" by arith+
  with assms(1,2,3) show ?thesis by auto
qed

lemma nth_pct_change_general:
  assumes "t < length xs" and "n \<le> t"
  shows "pct_change pad n xs ! t =
           fsub (fdiv ((if pad then ffill_col xs else xs) ! t)
                      ((if pad then ffill_col xs else xs) ! (t - n))) (Num 1)"
proof -
  define d where "d = (if pad then ffill_col xs else xs)"
  have len: "length d = length xs"
    by (simp add: d_def length_ffill_col)
  have "pct_change pad n xs ! t = fsub (fdiv (d ! t) (shift n d ! t)) (Num 1)"
    using assms(1) len by (simp add: pct_change_def d_def [symmetric] length_shift)
  also have "shift n d ! t = d ! (t - n)"
    using assms len by (simp add: nth_shift)
  finally show ?thesis by (simp add: d_def)
qed

lemma nth_yoy_general:
  assumes "t < length xs" and "n \<le> t"
  shows "col_mul (pct_change pad n xs) 100 ! t =
           fmul (fsub (fdiv ((if pad then ffill_col xs else xs) ! t)
                            ((if pad then ffill_col xs else xs) ! (t - n))) (Num 1))
                (Num 100)"
  using assms by (simp add: col_mul_def length_pct_change nth_pct_change_general)

text \<open>
  C3 as the code has it. For an index column of cpi\_agent\_v2.1.py the year-over-year
  column holds, at every row \<open>t \<ge> 12\<close> with a value at \<open>t\<close> and at \<open>t - 12\<close>, the
  value \<open>(value[t] / value[t - 12] - 1) * 100\<close>; so does \<open>'Supercore YoY'\<close> of
  rate\_agent\_v3.py with 252 rows for the daily table. In a column that has no gap
  after its first observation these are all rows at least 12 (252) after it (lemma
  \<open>after_first_observation\<close>). At a gap the result depends on pandas: a release that
  pads computes the change from the forward-filled column, one that does not pad
  leaves the change missing (the last two parts). With 100 and 110 twelve rows apart
  the later row gets 10.
\<close>

theorem yoy_formula:
  "(wf_frame df \<and> col \<in> set index_cols \<and> get_col df col = Some xs \<and>
    12 \<le> t \<and> t < length xs \<and> \<not> isna (xs ! t) \<and> \<not> isna (xs ! (t - 12)) \<longrightarrow>
      (\<exists>ys. get_col (snd (process_data_v21 pad df)) col = Some ys \<and>
            length ys = length xs \<and>
            ys ! t = fmul (fsub (fdiv (xs ! t) (xs ! (t - 12))) (Num 1)) (Num 100))) \<and>
   (get_col df SUPERCORE_IDX = Some xs \<and>
    252 \<le> t \<and> t < length xs \<and> \<not> isna (xs ! t) \<and> \<not> isna (xs ! (t - 252)) \<longrightarrow>
      (\<exists>ys. get_col (process_rates_data_v3 pad df) SUPERCORE_YOY = Some ys \<and>
            length ys = length xs \<and>
            ys ! t = fmul (fsub (fdiv (xs ! t) (xs ! (t - 252))) (Num 1)) (Num 100))) \<and>
   (wf_frame df \<and> col \<in> set index_cols \<and> get_col df col = Some xs \<and>
    12 \<le> t \<and> t < length xs \<longrightarrow>
      (\<exists>ys. get_col (snd (process_data_v21 pad df)) col = Some ys \<and>
            ys ! t = fmul (fsub (fdiv ((if pad then ffill_col xs else xs) ! t)
                                     ((if pad then ffill_col xs else xs) ! (t - 12)))
                                (Num 1)) (Num 100))) \<and>
   (get_col df SUPERCORE_IDX = Some xs \<and> 252 \<le> t \<and> t < length xs \<longrightarrow>
      (\<exists>ys. get_col (process_rates_data_v3 pad df) SUPERCORE_YOY = Some ys \<and>
            ys ! t = fmul (fsub (fdiv ((if pad then ffill_col xs else xs) ! t)
                                     ((if pad then ffill_col xs else xs) ! (t - 252)))
                                (Num 1)) (Num 100)))"
  by (simp add: v21_index_col v3_supercore_yoy length_yoy nth_yoy nth_yoy_general)

theorem yoy_formula_witness:
  "(\<exists>ys. get_col (snd (process_data_v21 True yoy_example)) CPI = Some ys \<and>
         length ys = 13 \<and> ys ! 12 = Num 10) \<and>
   (\<exists>ys. get_col (process_rates_data_v3 True supercore_example) SUPERCORE_YOY = Some ys \<and>
         length ys = 253 \<and> ys ! 252 = Num 10)"
proof -
  let ?xs = "Num 100 # replicate 11 NaN @ [Num 110]"
  let ?zs = "Num 100 # replicate 251 NaN @ [Num 110]"
  have wf: "wf_frame yoy_example"
    by (simp add: wf_frame_def yoy_example_def)
  have c: "CPI \<in> set index_cols" "get_col yoy_example CPI = Some ?xs"
    by (simp_all add: index_cols_def yoy_example_def get_col_def)
  have x: "?xs ! 12 = Num 110" "?xs ! (12 - 12) = Num 100" "length ?xs = 13"
    by (simp_all add: nth_append)
  have s: "get_col supercore_example SUPERCORE_IDX = Some ?zs"
    by (simp add: supercore_example_def get_col_def names_defs)
  have z: "?zs ! 252 = Num 110" "?zs ! (252 - 252) = Num 100" "length ?zs = 253"
    by (simp_all add: nth_append)
  have v: "fmul (fsub (fdiv (Num 110) (Num 100)) (Num 1)) (Num 100) = Num 10"
    by simp
  show ?thesis
    using yoy_formula [where df = yoy_example and col = CPI and xs = ?xs and t = 12
        and pad = True]
      yoy_formula [where df = supercore_example and xs = ?zs and t = 252 and pad = True]
      wf c s
    by (simp only: x z v isna_def) auto
qed

text \<open>
  C3 as stated fails where pandas pads: the PCE index has 100 in row 0, 120 in rows 1
  to 11 and no value in row 12, twelve rows after its first observation. The
  year-over-year column of that row is (120 / 100 - 1) * 100 = 20, where the formula
  on the row's own value is missing.
\<close>

theorem yoy_pads_gap:
  "get_col gap_yoy_example PCE = Some (Num 100 # replicate 11 (Num 120) @ [NaN]) \<and>
   get_col (snd (process_data_v21 True gap_yoy_example)) PCE =
     Some (replicate 12 NaN @ [Num 20]) \<and>
   fmul (fsub (fdiv NaN (Num 100)) (Num 1)) (Num 100) = NaN"
  by code_simp

subsection \<open>Rate columns\<close>

lemma get_col_mul_frame:
  "get_col (mul_frame df k) c = map_option (\<lambda>xs. col_mul xs k) (get_col df c)"
  by (simp add: get_col_def mul_frame_def map_of_map)

lemma index_pct_frame: "index (mul_frame (pct_change_frame pad n df) k) = index df"
  by (simp add: mul_frame_def pct_change_frame_def)

lemma process_data_sticky:
  assumes "get_col df STICKY = Some xs"
  shows "get_col (fst (snd (process_data pad df))) STICKY = Some xs"
    and "get_col (snd (snd (process_data pad df))) STICKY =
           Some (replicate (length (index df)) NaN)"
  using assms
  by (simp_all add: process_data_def Let_def frame_simps index_pct_frame names_defs
      split: option.splits)

text \<open>
  C7. A rate column goes into the derived table as it came: \<open>'Sticky CPI'\<close> in
  cpi\_agent.py, whose month-over-month column is missing at every date, and
  \<open>'Sticky CPI'\<close>, \<open>'5Y Breakeven'\<close> and \<open>'10Y Real Yield'\<close> in cpi\_agent\_v2.1.py,
  which derives no month-over-month table.
\<close>

theorem rate_passthrough:
  "(get_col df STICKY = Some xs \<longrightarrow>
      get_col (fst (snd (process_data pad df))) STICKY = Some xs \<and>
      get_col (snd (snd (process_data pad df))) STICKY =
        Some (replicate (length (index df)) NaN)) \<and>
   (wf_frame df \<and> col \<in> set rate_cols \<and> get_col df col = Some xs \<longrightarrow>
      get_col (snd (process_data_v21 pad df)) col = Some xs)"
  by (simp add: process_data_sticky v21_rate_col)

theorem rate_passthrough_witness:
  "get_col (fst (snd (process_data True rate_example))) STICKY =
     Some [Num (7 / 2), Num (18 / 5)] \<and>
   get_col (snd (snd (process_data True rate_example))) STICKY = Some [NaN, NaN] \<and>
   get_col (snd (process_data_v21 True rate_example)) STICKY =
     Some [Num (7 / 2), Num (18 / 5)]"
proof -
  have a: "get_col rate_example STICKY = Some [Num (7 / 2), Num (18 / 5)]"
    "wf_frame rate_example" "STICKY \<in> set rate_cols"
    "replicate (length (index rate_example)) NaN = [NaN, NaN]"
    by (simp_all add: rate_example_def get_col_def wf_frame_def rate_cols_def names_defs)
  show ?thesis
    using rate_passthrough [where df = rate_example and xs = "[Num (7 / 2), Num (18 / 5)]"
        and pad = True and col = STICKY] a
    by simp
qed

subsection \<open>The simulator\<close>

lemma sim_loop_map:
  "sim_loop base g c i k =
     map (\<lambda>j. if j < length base
              then fmul (fsub (fdiv (level c g (j - i)) (base ! j)) (Num 1)) (Num 100)
              else NaN) [i..<i + k]"
proof (induction k arbitrary: c i)
  case 0
  then show ?case by simp
next
  case (Suc k)
  have lv: "level (fmul c g) g (j - Suc i) = level c g (j - i)" if "Suc i \<le> j" for j
  proof -
    from that have "j - i = Suc (j - Suc i)" by simp
    then show ?thesis
      by (simp add: level_def funpow_Suc_right del: funpow.simps)
  qed
  have split: "[i..<i + Suc k] = i # [Suc i..<Suc i + k]"
    by (simp add: upt_conv_Cons)
  have "sim_loop base g (fmul c g) (Suc i) k =
      map (\<lambda>j. if j < length base
              then fmul (fsub (fdiv (level c g (j - i)) (base ! j)) (Num 1)) (Num 100)
              else NaN) [Suc i..<Suc i + k]"
    unfolding Suc.IH
  proof (rule map_cong)
    fix j assume "j \<in> set [Suc i..<Suc i + k]"
    then have "Suc i \<le> j" by auto
    then show "(if j < length base
           then fmul (fsub (fdiv (level (fmul c g) g (j - Suc i)) (base ! j)) (Num 1)) (Num 100)
           else NaN) =
          (if j < length base
           then fmul (fsub (fdiv (level c g (j - i)) (base ! j)) (Num 1)) (Num 100)
           else NaN)"
      by (simp add: lv)
  qed simp
  then show ?case
    unfolding split by (simp add: Let_def level_def)
qed

lemma base_indices_full:
  assumes "13 \<le> length hist"
  shows "length (base_indices hist) = 6"
    and "i < 6 \<Longrightarrow> base_indices hist ! i = hist ! (length hist + i - 13)"
  using assms by (simp_all add: base_indices_def months_to_predict_def add.commute)

lemma base_indices_none:
  assumes "length hist \<le> 7"
  shows "base_indices hist = []"
  using assms by (simp add: base_indices_def months_to_predict_def)

lemma simulator_full_history:
  assumes "13 \<le> length hist"
  shows "simulator hist r = Inr (spec_simulator hist r)"
proof -
  from assms have ne: "hist \<noteq> []" by auto
  have "sim_loop (base_indices hist) (Num (1 + r)) (last hist) 0 months_to_predict =
        spec_simulator hist r"
    unfolding sim_loop_map spec_simulator_def
    by (rule map_cong) (use assms in \<open>simp_all add: base_indices_full months_to_predict_def\<close>)
  with ne show ?thesis by (simp add: simulator_def)
qed

lemma simulator_no_base:
  assumes "hist \<noteq> []" and "length hist \<le> 7"
  shows "simulator hist r = Inr (spec_simulator hist r)"
proof -
  have "sim_loop (base_indices hist) (Num (1 + r)) (last hist) 0 months_to_predict =
        spec_simulator hist r"
    unfolding sim_loop_map spec_simulator_def
    by (rule map_cong) (use assms in \<open>simp_all add: base_indices_none months_to_predict_def\<close>)
  with assms(1) show ?thesis by (simp add: simulator_def)
qed

text \<open>
  C4. The simulator compounds the last level and compares step \<open>i\<close> with the level 12
  rows before the last one plus \<open>i\<close>; a step without such a row has no value. The code
  does so on a history of at least 13 rows and on one of at most 7 rows (lemmas
  \<open>simulator_full_history\<close>, \<open>simulator_no_base\<close>). In between, the slice
  \<open>iloc[-13:-7]\<close> starts at the first row: on 8 rows the only base level is the one 7
  rows before the last, the code compares step 0 with it and leaves the other steps
  without value, where only step 5 has a matching row.
\<close>

theorem simulator_short_history:
  "simulator short_history (1 / 500) = Inr [Num (254 / 101), NaN, NaN, NaN, NaN, NaN]"
  by code_simp

lemma spec_simulator_short_history:
  "map isna (spec_simulator short_history (1 / 500)) =
     [True, True, True, True, True, False]"
  by code_simp

subsection \<open>Cells of the fetched tables\<close>

lemma observed_Nil: "observed [] d = NaN"
  by (simp add: observed_def)

lemma map_observed_Nil: "map (observed []) ds = replicate (length ds) NaN"
  by (induction ds) (simp_all add: observed_Nil)

lemma reindex_observed: "reindex s idx = map (observed s) idx"
  by (simp add: reindex_def observed_def)

lemma observed_own_dates:
  "distinct (map fst s) \<Longrightarrow> map (observed s) (map fst s) = map snd s"
proof (induction s)
  case Nil
  then show ?case by simp
next
  case (Cons p s)
  obtain d v where p: "p = (d, v)" by (cases p)
  with Cons.prems have d: "d \<notin> fst ` set s" and ds: "distinct (map fst s)" by auto
  have "map (observed ((d, v) # s)) (map fst s) = map (observed s) (map fst s)"
    using d by (intro map_cong) (auto simp: observed_def)
  with Cons.IH [OF ds] p show ?case by (simp add: observed_def)
qed

lemma assign_series_index:
  "index (assign_series df c s) =
     (if index df = [] \<and> s \<noteq> [] then map fst s else index df)"
  by (simp add: assign_series_def Let_def set_col_def)

lemma assign_series_other:
  "n \<noteq> c \<Longrightarrow>
   get_col (assign_series df c s) n =
     (if index df = [] \<and> s \<noteq> []
      then map_option (\<lambda>xs. replicate (length s) NaN) (get_col df n)
      else get_col df n)"
  by (simp add: assign_series_def Let_def get_col_set_col)
    (simp add: get_col_def map_of_map)

lemma assign_series_stored:
  assumes "distinct (map fst s)"
  shows "get_col (assign_series df c s) c =
           Some (map (observed s) (index (assign_series df c s)))"
proof -
  define df1 where "df1 = (if index df = [] \<and> s \<noteq> []
                 then \<lparr>index = map fst s,
                       cols = map (\<lambda>(n, xs). (n, replicate (length s) NaN)) (cols df)\<rparr>
                 else df)"
  have a: "assign_series df c s =
      set_col df1 c (if map fst s = index df1 then map snd s else reindex s (index df1))"
    by (simp add: assign_series_def df1_def Let_def)
  have "(if map fst s = index df1 then map snd s else reindex s (index df1)) =
      map (observed s) (index df1)"
  proof (cases "map fst s = index df1")
    case True
    have "map (observed s) (index df1) = map snd s"
      unfolding True [symmetric] by (rule observed_own_dates [OF assms])
    with True show ?thesis by simp
  next
    case False
    then show ?thesis by (simp only: if_False reindex_observed)
  qed
  then show ?thesis
    by (simp add: a get_col_set_col index_set_col)
qed

lemma fetch_columns_cells:
  assumes "distinct (map snd (pre @ ts))"
    and "\<forall>code name s. (code, name) \<in> set pre \<and> fetch code = Some s \<longrightarrow>
           (index df = [] \<longrightarrow> s = []) \<and>
           (distinct (map fst s) \<longrightarrow> get_col df name = Some (map (observed s) (index df)))"
  shows "(\<forall>code name s. (code, name) \<in> set (pre @ ts) \<and> fetch code = Some s \<longrightarrow>
           (index (fst (fetch_columns fetch ts (df, errs))) = [] \<longrightarrow> s = []) \<and>
           (distinct (map fst s) \<longrightarrow>
              get_col (fst (fetch_columns fetch ts (df, errs))) name =
                Some (map (observed s) (index (fst (fetch_columns fetch ts (df, errs))))))) \<and>
         index (fst (fetch_columns fetch ts (df, errs))) =
           (if index df = [] then first_dates fetch ts else index df)"
  using assms
proof (induction ts arbitrary: pre df errs)
  case Nil
  then show ?case by simp
next
  case (Cons p ts)
  obtain code name where p: "p = (code, name)" by (cases p)
  have dist': "distinct (map snd ((pre @ [p]) @ ts))"
    using Cons.prems(1) by simp
  have fresh: "name \<notin> snd ` set pre"
    using Cons.prems(1) p by auto
  show ?case
  proof (cases "fetch code")
    case None
    have inv: "\<forall>code' name' s. (code', name') \<in> set (pre @ [p]) \<and> fetch code' = Some s \<longrightarrow>
           (index df = [] \<longrightarrow> s = []) \<and>
           (distinct (map fst s) \<longrightarrow> get_col df name' = Some (map (observed s) (index df)))"
      using Cons.prems(2) None p by auto
    from Cons.IH [OF dist' inv, of "errs @ [name]"] None p show ?thesis
      by simp
  next
    case (Some s)
    let ?df = "assign_series df name s"
    have inv: "\<forall>code' name' s'. (code', name') \<in> set (pre @ [p]) \<and> fetch code' = Some s' \<longrightarrow>
           (index ?df = [] \<longrightarrow> s' = []) \<and>
           (distinct (map fst s') \<longrightarrow>
              get_col ?df name' = Some (map (observed s') (index ?df)))"
    proof (intro allI impI)
      fix code' name' s'
      assume a: "(code', name') \<in> set (pre @ [p]) \<and> fetch code' = Some s'"
      show "(index ?df = [] \<longrightarrow> s' = []) \<and>
           (distinct (map fst s') \<longrightarrow>
              get_col ?df name' = Some (map (observed s') (index ?df)))"
      proof (cases "(code', name') = p")
        case True
        with a p Some have s': "s' = s" and n: "name' = name" by auto
        show ?thesis
          unfolding s' n
          by (auto simp: assign_series_stored) (auto simp: assign_series_index split: if_splits)
      next
        case False
        with a have in_pre: "(code', name') \<in> set pre" and f: "fetch code' = Some s'"
          by auto
        with fresh have ne: "name' \<noteq> name" by force
        from Cons.prems(2) in_pre f
        have e: "index df = [] \<longrightarrow> s' = []"
          and g: "distinct (map fst s') \<longrightarrow>
                   get_col df name' = Some (map (observed s') (index df))"
          by blast+
        show ?thesis
        proof (cases "index df = [] \<and> s \<noteq> []")
          case True
          with e have s': "s' = []" by simp
          with g True have old: "get_col df name' = Some []" by simp
          have "get_col ?df name' =
              map_option (\<lambda>xs. replicate (length s) NaN) (get_col df name')"
            using True by (simp add: assign_series_other [OF ne])
          then have c1: "get_col ?df name' = Some (replicate (length s) NaN)"
            by (simp add: old)
          have c2: "index ?df = map fst s"
            using True by (simp add: assign_series_index)
          have c3: "map (observed s') (map fst s) = replicate (length s) NaN"
            unfolding s' by (simp only: map_observed_Nil length_map)
          have "get_col ?df name' = Some (map (observed s') (index ?df))"
            by (simp only: c1 c2 c3)
          with s' show ?thesis by blast
        next
          case False
          with e g ne show ?thesis
            by (auto simp: assign_series_other assign_series_index)
        qed
      qed
    qed
    from Cons.IH [OF dist' inv, of errs] Some p show ?thesis
      by (auto simp: assign_series_index)
  qed
qed

lemma get_macro_data_cells:
  assumes "(code, name) \<in> set tickers_cpi" and "fetch code = Some s"
    and "distinct (map fst s)"
  shows "get_col (fst (get_macro_data fetch)) name =
           Some (map (observed s) (index (fst (get_macro_data fetch))))"
    and "index (fst (get_macro_data fetch)) = first_dates fetch tickers_cpi"
  using fetch_columns_cells [of "[]" tickers_cpi fetch empty_frame "[]"] distinct_tickers(1)
    assms
  by (auto simp: get_macro_data_def empty_frame_def)

lemma fetch_series_names:
  "fst ` set (fst (fetch_series fetch ts)) \<subseteq> snd ` set ts"
  using fetch_series_result [of fetch ts] fetched_subset [of fetch ts]
  by (metis list.set_map)

lemma map_of_fetch_series:
  assumes "distinct (map snd ts)" and "(code, name) \<in> set ts"
  shows "map_of (fst (fetch_series fetch ts)) name = fetch code"
  using assms
proof (induction ts)
  case Nil
  then show ?case by simp
next
  case (Cons p ts)
  obtain code' name' where p: "p = (code', name')" by (cases p)
  from Cons.prems(1) p have d: "distinct (map snd ts)" and fresh: "name' \<notin> snd ` set ts"
    by auto
  have step: "fst (fetch_series fetch (p # ts)) =
      (case fetch code' of Some s \<Rightarrow> (name', s) # fst (fetch_series fetch ts)
       | None \<Rightarrow> fst (fetch_series fetch ts))"
    by (simp add: p case_prod_unfold Let_def split: option.splits)
  show ?case
  proof (cases "(code, name) = p")
    case True
    with p have e: "code = code'" "name = name'" by auto
    have "name' \<notin> fst ` set (fst (fetch_series fetch ts))"
      using fresh fetch_series_names [of fetch ts] by blast
    then have "map_of (fst (fetch_series fetch ts)) name' = None"
      by (simp add: map_of_eq_None_iff)
    then show ?thesis
      unfolding step e by (cases "fetch code'") simp_all
  next
    case False
    with Cons.prems(2) have in_ts: "(code, name) \<in> set ts" by simp
    with fresh have "name \<noteq> name'" by force
    with Cons.IH [OF d in_ts] show ?thesis
      unfolding step by (cases "fetch code'") simp_all
  qed
qed

lemma get_col_concat_axis1:
  "get_col (concat_axis1 fs) name =
     map_option (\<lambda>s. map (observed s) (index (concat_axis1 fs))) (map_of fs name)"
  by (simp add: get_col_def concat_axis1_def Let_def map_of_map reindex_observed)

lemma get_col_take_rows:
  "get_col (take_rows df ks) c = map_option (\<lambda>xs. map (\<lambda>k. xs ! k) ks) (get_col df c)"
  by (simp add: get_col_def take_rows_def map_of_map)

lemma index_take_rows: "index (take_rows df ks) = map (\<lambda>k. index df ! k) ks"
  by (simp add: take_rows_def)

lemma kept_positions_ffill:
  assumes "get_col (ffill df) a = Some xs"
  shows "kept_positions (spec_ffill df) a =
           filter (\<lambda>k. \<not> isna (xs ! k)) [0..<length (index (ffill df))]"
  unfolding ffill_spec [symmetric]
  by (simp add: kept_positions_def has_value_row_at [OF assms])

lemma map_ffill_col_positions:
  assumes "\<forall>k \<in> set ks. k < length xs"
  shows "map (\<lambda>k. ffill_col xs ! k) ks = map (last_valid xs) ks"
  using assms by (intro map_cong) (simp_all add: ffill_col_last_valid)

lemma align_rates_cells:
  assumes "align_rates fs = Inr df" and "map_of fs US_10Y \<noteq> None"
  shows "index df =
           map (\<lambda>k. index (concat_axis1 fs) ! k)
             (kept_positions (spec_ffill (concat_axis1 fs)) US_10Y)"
    and "map_of fs name = Some s \<Longrightarrow>
         get_col df name =
           Some (map (last_valid (map (observed s) (index (concat_axis1 fs))))
                   (kept_positions (spec_ffill (concat_axis1 fs)) US_10Y))"
proof -
  let ?J = "concat_axis1 fs"
  let ?K = "kept_positions (spec_ffill ?J) US_10Y"
  from assms(2) have ne: "fs \<noteq> []" by auto
  from assms(2) obtain a where a: "map_of fs US_10Y = Some a" by auto
  let ?xa = "ffill_col (map (observed a) (index ?J))"
  have ga: "get_col (ffill ?J) US_10Y = Some ?xa"
    by (simp add: get_col_ffill get_col_concat_axis1 a)
  have K: "?K = filter (\<lambda>k. \<not> isna (?xa ! k)) [0..<length (index (ffill ?J))]"
    by (rule kept_positions_ffill [OF ga])
  from assms(1) ne ga have df: "df = take_rows (ffill ?J) ?K"
    by (simp add: align_rates_def dropna_subset_def K)
  show "index df = map (\<lambda>k. index ?J ! k) ?K"
    by (simp add: df index_take_rows index_ffill)
  show "get_col df name = Some (map (last_valid (map (observed s) (index ?J))) ?K)"
    if "map_of fs name = Some s"
  proof -
    let ?X = "map (observed s) (index ?J)"
    have "get_col (ffill ?J) name = Some (ffill_col ?X)"
      by (simp add: get_col_ffill get_col_concat_axis1 that)
    then have "get_col df name = Some (map (\<lambda>k. ffill_col ?X ! k) ?K)"
      by (simp add: df get_col_take_rows)
    moreover have "\<forall>k \<in> set ?K. k < length ?X"
      by (simp add: K index_ffill)
    ultimately show ?thesis
      by (simp only: map_ffill_col_positions)
  qed
qed

lemma get_rates_data_v2_cells:
  assumes "fetch ''DGS10'' \<noteq> None"
  shows "\<exists>df. fst (get_rates_data_v2 fetch) = Inr df \<and>
           columns df = fetched fetch tickers_rate_v2 \<and>
           index df =
             map (\<lambda>k. index (concat_axis1 (fst (fetch_series fetch tickers_rate_v2))) ! k)
               (kept_positions
                  (spec_ffill (concat_axis1 (fst (fetch_series fetch tickers_rate_v2))))
                  US_10Y) \<and>
           (\<forall>code name s. (code, name) \<in> set tickers_rate_v2 \<and> fetch code = Some s \<longrightarrow>
              get_col df name =
                Some (map (last_valid
                        (map (observed s)
                           (index (concat_axis1 (fst (fetch_series fetch tickers_rate_v2))))))
                      (kept_positions
                         (spec_ffill (concat_axis1 (fst (fetch_series fetch tickers_rate_v2))))
                         US_10Y)))"
proof -
  let ?fs = "fst (fetch_series fetch tickers_rate_v2)"
  from get_rates_data_v2_columns [of fetch] assms obtain df
    where df: "fst (get_rates_data_v2 fetch) = Inr df"
      and c: "columns df = fetched fetch tickers_rate_v2"
    by blast
  then have al: "align_rates ?fs = Inr df"
    by (simp add: get_rates_data_v2_result)
  have anchor: "map_of ?fs US_10Y \<noteq> None"
    using map_of_fetch_series [OF distinct_tickers(3) anchor_tickers(3), of fetch] assms
    by simp
  have "get_col df name =
      Some (map (last_valid (map (observed s) (index (concat_axis1 ?fs))))
              (kept_positions (spec_ffill (concat_axis1 ?fs)) US_10Y))"
    if "(code, name) \<in> set tickers_rate_v2" "fetch code = Some s" for code name s
    using align_rates_cells(2) [OF al anchor, of name s]
      map_of_fetch_series [OF distinct_tickers(3) that(1), of fetch] that(2)
    by simp
  with df c align_rates_cells(1) [OF al anchor] show ?thesis by blast
qed

text \<open>
  C8. A failed fetch does not end the loop. \<open>get_macro_data\<close> of cpi\_agent.py shows
  the names of the failed series and returns a table on the dates of the first series
  that has observations: a ticker's column is present exactly when its fetch succeeded,
  in ticker order, and holds the observations of its series at those dates.
  \<open>get_rates_data\<close> of rate\_agent\_v2.py prints the failed names and, the anchor
  \<open>'US 10Y Yield'\<close> being fetched, returns a table with exactly the fetched series as
  columns: on the dates of all series with a 10-year yield, each column holds the
  latest observation of its series at that date or before.
\<close>

theorem fetch_failure_isolated:
  "columns (fst (get_macro_data fetch)) = fetched fetch tickers_cpi \<and>
   snd (get_macro_data fetch) = failed fetch tickers_cpi \<and>
   index (fst (get_macro_data fetch)) = first_dates fetch tickers_cpi \<and>
   ((code, name) \<in> set tickers_cpi \<longrightarrow>
      has_col (fst (get_macro_data fetch)) name = (fetch code \<noteq> None)) \<and>
   ((code, name) \<in> set tickers_cpi \<and> fetch code = Some s \<and> distinct (map fst s) \<longrightarrow>
      get_col (fst (get_macro_data fetch)) name =
        Some (map (observed s) (index (fst (get_macro_data fetch))))) \<and>
   snd (get_rates_data_v2 fetch) = failed fetch tickers_rate_v2 \<and>
   (fetch ''DGS10'' \<noteq> None \<longrightarrow>
      (\<exists>df. fst (get_rates_data_v2 fetch) = Inr df \<and>
            columns df = fetched fetch tickers_rate_v2 \<and>
            ((code, name) \<in> set tickers_rate_v2 \<longrightarrow>
               has_col df name = (fetch code \<noteq> None)) \<and>
            index df =
              map (\<lambda>k. index (concat_axis1 (fst (fetch_series fetch tickers_rate_v2))) ! k)
                (kept_positions
                   (spec_ffill (concat_axis1 (fst (fetch_series fetch tickers_rate_v2))))
                   US_10Y) \<and>
            ((code, name) \<in> set tickers_rate_v2 \<and> fetch code = Some s \<longrightarrow>
               get_col df name =
                 Some (map (last_valid
                         (map (observed s)
                            (index (concat_axis1 (fst (fetch_series fetch tickers_rate_v2))))))
                       (kept_positions
                          (spec_ffill
                             (concat_axis1 (fst (fetch_series fetch tickers_rate_v2))))
                          US_10Y)))))"
proof -
  have i: "index (fst (get_macro_data fetch)) = first_dates fetch tickers_cpi"
    using fetch_columns_cells [of "[]" tickers_cpi fetch empty_frame "[]"]
      distinct_tickers(1)
    by (simp add: get_macro_data_def empty_frame_def)
  have a: "(code, name) \<in> set tickers_cpi \<longrightarrow>
      has_col (fst (get_macro_data fetch)) name = (fetch code \<noteq> None)"
    using fetched_member [OF distinct_tickers(1), of code name fetch]
    by (simp add: has_col_def get_macro_data_columns)
  have c: "(code, name) \<in> set tickers_cpi \<and> fetch code = Some s \<and> distinct (map fst s) \<longrightarrow>
      get_col (fst (get_macro_data fetch)) name =
        Some (map (observed s) (index (fst (get_macro_data fetch))))"
    using get_macro_data_cells(1) [of code name fetch s] by simp
  have b: "\<exists>df. fst (get_rates_data_v2 fetch) = Inr df \<and>
            columns df = fetched fetch tickers_rate_v2 \<and>
            ((code, name) \<in> set tickers_rate_v2 \<longrightarrow>
               has_col df name = (fetch code \<noteq> None)) \<and>
            index df =
              map (\<lambda>k. index (concat_axis1 (fst (fetch_series fetch tickers_rate_v2))) ! k)
                (kept_positions
                   (spec_ffill (concat_axis1 (fst (fetch_series fetch tickers_rate_v2))))
                   US_10Y) \<and>
            ((code, name) \<in> set tickers_rate_v2 \<and> fetch code = Some s \<longrightarrow>
               get_col df name =
                 Some (map (last_valid
                         (map (observed s)
                            (index (concat_axis1 (fst (fetch_series fetch tickers_rate_v2))))))
                       (kept_positions
                          (spec_ffill
                             (concat_axis1 (fst (fetch_series fetch tickers_rate_v2))))
                          US_10Y)))" if "fetch ''DGS10'' \<noteq> None"
  proof -
    from get_rates_data_v2_cells [of fetch] that obtain df where
      df: "fst (get_rates_data_v2 fetch) = Inr df"
        "columns df = fetched fetch tickers_rate_v2"
        "index df =
          map (\<lambda>k. index (concat_axis1 (fst (fetch_series fetch tickers_rate_v2))) ! k)
            (kept_positions
               (spec_ffill (concat_axis1 (fst (fetch_series fetch tickers_rate_v2))))
               US_10Y)"
      and cells: "\<forall>code name s. (code, name) \<in> set tickers_rate_v2 \<and> fetch code = Some s \<longrightarrow>
              get_col df name =
                Some (map (last_valid
                        (map (observed s)
                           (index (concat_axis1 (fst (fetch_series fetch tickers_rate_v2))))))
                      (kept_positions
                         (spec_ffill (concat_axis1 (fst (fetch_series fetch tickers_rate_v2))))
                         US_10Y))"
      by blast
    have "(code, name) \<in> set tickers_rate_v2 \<longrightarrow> has_col df name = (fetch code \<noteq> None)"
      using fetched_member [OF distinct_tickers(3), of code name fetch]
      by (simp add: has_col_def df(2))
    with df cells show ?thesis by blast
  qed
  show ?thesis
    apply (intro conjI)
    subgoal by (rule get_macro_data_columns(1))
    subgoal by (rule get_macro_data_columns(2))
    subgoal by (rule i)
    subgoal by (rule a)
    subgoal by (rule c)
    subgoal by (rule get_rates_data_v2_result(1))
    subgoal using b by blast
    done
qed

theorem fetch_failure_isolated_witness:
  "(''PCEPI'', PCE) \<in> set tickers_cpi \<and> (''PPIFIS'', PPI) \<in> set tickers_cpi \<and>
   (''WTREGEN'', TGA) \<in> set tickers_rate_v2 \<and> (''WALCL'', FED_ASSETS) \<in> set tickers_rate_v2 \<and>
   partial_fetch ''PCEPI'' = None \<and> partial_fetch ''WTREGEN'' = None \<and>
   partial_fetch ''PPIFIS'' = Some [(0, Num 140)] \<and>
   partial_fetch ''WALCL'' = Some [(1, Num 9000000)] \<and>
   partial_fetch ''DGS10'' \<noteq> None \<and>
   columns (fst (get_macro_data partial_fetch)) = [CPI, PPI] \<and>
   snd (get_macro_data partial_fetch) = [CPI_CORE, PCE, STICKY] \<and>
   index (fst (get_macro_data partial_fetch)) = [0, 1] \<and>
   has_col (fst (get_macro_data partial_fetch)) PCE = False \<and>
   get_col (fst (get_macro_data partial_fetch)) PPI = Some [Num 140, NaN] \<and>
   (\<exists>df. fst (get_rates_data_v2 partial_fetch) = Inr df \<and>
         columns df = [US_10Y, FED_ASSETS] \<and> has_col df TGA = False \<and>
         index df = [0, 1] \<and> get_col df FED_ASSETS = Some [NaN, Num 9000000])"
proof -
  have t: "(''PCEPI'', PCE) \<in> set tickers_cpi" "(''PPIFIS'', PPI) \<in> set tickers_cpi"
    "(''WTREGEN'', TGA) \<in> set tickers_rate_v2" "(''WALCL'', FED_ASSETS) \<in> set tickers_rate_v2"
    by (simp_all add: tickers_cpi_def tickers_rate_v2_def)
  have f: "partial_fetch ''PCEPI'' = None" "partial_fetch ''WTREGEN'' = None"
    "partial_fetch ''PPIFIS'' = Some [(0, Num 140)]"
    "partial_fetch ''WALCL'' = Some [(1, Num 9000000)]"
    "partial_fetch ''DGS10'' \<noteq> None"
    by (simp_all add: partial_fetch_def)
  have l: "fetched partial_fetch tickers_cpi = [CPI, PPI]"
    "failed partial_fetch tickers_cpi = [CPI_CORE, PCE, STICKY]"
    "fetched partial_fetch tickers_rate_v2 = [US_10Y, FED_ASSETS]"
    "first_dates partial_fetch tickers_cpi = [0, 1]"
    by (simp_all add: fetched_def failed_def tickers_cpi_def tickers_rate_v2_def
        partial_fetch_def)
  have o: "map (observed [(0, Num 140)]) [0, 1] = [Num 140, NaN]"
    by (simp add: observed_def)
  have j: "index (concat_axis1 (fst (fetch_series partial_fetch tickers_rate_v2))) = [0, 1]"
    "kept_positions
       (spec_ffill (concat_axis1 (fst (fetch_series partial_fetch tickers_rate_v2)))) US_10Y =
     [0, 1]"
    "map (last_valid (map (observed [(1, Num 9000000)]) [0, 1])) [0, 1] = [NaN, Num 9000000]"
    by code_simp+
  note cpi1 = fetch_failure_isolated [where fetch = partial_fetch and code = "''PCEPI''"
      and name = PCE]
  note cpi2 = fetch_failure_isolated [where fetch = partial_fetch and code = "''PPIFIS''"
      and name = PPI and s = "[(0, Num 140)]"]
  note r1 = fetch_failure_isolated [where fetch = partial_fetch and code = "''WTREGEN''"
      and name = TGA]
  note r2 = fetch_failure_isolated [where fetch = partial_fetch and code = "''WALCL''"
      and name = FED_ASSETS and s = "[(1, Num 9000000)]"]
  note r1' = r1 [THEN conjunct2, THEN conjunct2, THEN conjunct2, THEN conjunct2,
      THEN conjunct2, THEN conjunct2, THEN mp, OF f(5)]
  note r2' = r2 [THEN conjunct2, THEN conjunct2, THEN conjunct2, THEN conjunct2,
      THEN conjunct2, THEN conjunct2, THEN mp, OF f(5)]
  from r1' obtain df where df: "fst (get_rates_data_v2 partial_fetch) = Inr df"
    "columns df = fetched partial_fetch tickers_rate_v2"
    and tga: "(''WTREGEN'', TGA) \<in> set tickers_rate_v2 \<longrightarrow>
       has_col df TGA = (partial_fetch ''WTREGEN'' \<noteq> None)"
    by blast
  from r2' obtain df' where df': "fst (get_rates_data_v2 partial_fetch) = Inr df'"
    and idx: "index df' =
      map (\<lambda>k. index (concat_axis1 (fst (fetch_series partial_fetch tickers_rate_v2))) ! k)
        (kept_positions
           (spec_ffill (concat_axis1 (fst (fetch_series partial_fetch tickers_rate_v2))))
           US_10Y)"
    and fed: "(''WALCL'', FED_ASSETS) \<in> set tickers_rate_v2 \<and>
       partial_fetch ''WALCL'' = Some [(1, Num 9000000)] \<longrightarrow>
       get_col df' FED_ASSETS =
         Some (map (last_valid
                 (map (observed [(1, Num 9000000)])
                    (index (concat_axis1 (fst (fetch_series partial_fetch tickers_rate_v2))))))
               (kept_positions
                  (spec_ffill
                     (concat_axis1 (fst (fetch_series partial_fetch tickers_rate_v2))))
                  US_10Y))"
    by blast
  from df(1) df' have same: "df' = df" by simp
  have r: "index df = [0, 1]" "get_col df FED_ASSETS = Some [NaN, Num 9000000]"
    using idx fed t(4) f(4) unfolding same j by simp_all
  have nt: "has_col df TGA = False"
    using tga t(3) f(2) by simp
  have p: "get_col (fst (get_macro_data partial_fetch)) PPI = Some [Num 140, NaN]"
    using cpi2 t(2) f(3) by (simp add: l observed_def)
  have cp: "columns (fst (get_macro_data partial_fetch)) = [CPI, PPI]"
    "snd (get_macro_data partial_fetch) = [CPI_CORE, PCE, STICKY]"
    "index (fst (get_macro_data partial_fetch)) = [0, 1]"
    "has_col (fst (get_macro_data partial_fetch)) PCE = False"
    using cpi1 t(1) f(1) by (simp_all add: l)
  have "\<exists>df. fst (get_rates_data_v2 partial_fetch) = Inr df \<and>
         columns df = [US_10Y, FED_ASSETS] \<and> has_col df TGA = False \<and>
         index df = [0, 1] \<and> get_col df FED_ASSETS = Some [NaN, Num 9000000]"
    using df r nt by (simp add: l)
  with t f cp p show ?thesis by simp
qed

subsection \<open>Failure of the anchor series\<close>

lemma main_cpi_v21_no_anchor:
  assumes "fetch ''CPIAUCSL'' = None"
  shows "main_cpi_v21 pad fetch = Inl (Stop ''no CPI data'')"
proof -
  have "\<not> has_col (fst (get_macro_data_v21 fetch)) CPI"
    using fetched_member [OF distinct_tickers(2) anchor_tickers(2), of fetch] assms
    by (simp add: has_col_def get_macro_data_columns)
  then show ?thesis
    by (simp add: main_cpi_v21_def case_prod_unfold)
qed

lemma is_empty_process_empty: "is_empty (process_rates_data_v2 empty_frame)"
  by (simp add: is_empty_def v2_index empty_frame_def)

lemma main_rate_v2_no_anchor:
  assumes "fetch ''DGS10'' = None"
  shows "main_rate_v2 fetch =
           Inl (if fetched fetch tickers_rate_v2 = [] then Stop ''no data''
                else KeyError US_10Y)"
proof -
  let ?fs = "fst (fetch_series fetch tickers_rate_v2)"
  have names: "map fst ?fs = fetched fetch tickers_rate_v2"
    using fetch_series_result by simp
  have "US_10Y \<notin> set (fetched fetch tickers_rate_v2)"
    using fetched_member [OF distinct_tickers(3) anchor_tickers(3), of fetch] assms by simp
  then have "US_10Y \<notin> set (map fst ?fs)" by (simp add: names)
  from align_rates_no_anchor [OF this]
  have a: "fst (get_rates_data_v2 fetch) =
      (if ?fs = [] then Inr empty_frame else Inl (KeyError US_10Y))"
    by (simp add: get_rates_data_v2_result)
  have e: "?fs = [] \<longleftrightarrow> fetched fetch tickers_rate_v2 = []"
    using names by (metis map_is_Nil_conv)
  show ?thesis
    by (simp add: main_rate_v2_def a e is_empty_process_empty Let_def)
qed

text \<open>
  C9. When the fetch of the anchor series fails the render cycle ends with a reported
  failure and hands over no derived table and no latest values: cpi\_agent\_v2.1.py
  stops after \<open>st.error\<close> because the raw table has no \<open>'CPI (Headline)'\<close>;
  rate\_agent\_v2.py fails with the \<open>KeyError\<close> of \<open>dropna(subset=['US 10Y Yield'])\<close>,
  reported by the script's \<open>except\<close>, or, when no series at all was fetched, stops on
  the empty table.
\<close>

theorem anchor_failure_is_fatal:
  "(fetch ''CPIAUCSL'' = None \<longrightarrow> main_cpi_v21 pad fetch = Inl (Stop ''no CPI data'')) \<and>
   (fetch ''DGS10'' = None \<longrightarrow>
      main_rate_v2 fetch =
        Inl (if fetched fetch tickers_rate_v2 = [] then Stop ''no data''
             else KeyError US_10Y))"
  using main_cpi_v21_no_anchor [of fetch pad] main_rate_v2_no_anchor [of fetch] by blast

theorem anchor_failure_is_fatal_witness:
  "no_anchor_fetch ''CPIAUCSL'' = None \<and> no_anchor_fetch ''DGS10'' = None \<and>
   main_cpi_v21 True no_anchor_fetch = Inl (Stop ''no CPI data'') \<and>
   main_rate_v2 no_anchor_fetch = Inl (KeyError US_10Y)"
proof -
  have f: "no_anchor_fetch ''CPIAUCSL'' = None" "no_anchor_fetch ''DGS10'' = None"
    by (simp_all add: no_anchor_fetch_def)
  have l: "fetched no_anchor_fetch tickers_rate_v2 = [US_2Y]"
    by (simp add: fetched_def tickers_rate_v2_def no_anchor_fetch_def)
  show ?thesis
    using anchor_failure_is_fatal [of no_anchor_fetch True] f l by simp
qed

end
